theory Spec2Isabelle
  imports Main "HOL-Library.AList" "HOL-Library.Multiset"
begin

section \<open>The JavaScript host: dates, numbers read from strings, collation\<close>

text \<open>
  The ranking engine (\<^verbatim>\<open>src/lib/fantasy-ranking.ts\<close>) works on JavaScript \<^verbatim>\<open>Date\<close>
  objects. A \<^verbatim>\<open>Date\<close> is its time value: a number of milliseconds since
  1970-01-01T00:00:00Z, or NaN for an Invalid Date. Here a time value is an \<open>int\<close> and a
  date that may be invalid is an \<open>int option\<close> (\<open>None\<close> is the Invalid Date). The
  range limit of time values (plus or minus 8.64e15 ms) is not modelled.

  What the engine reads from its host is collected in a record: the offset of local time
  from UTC in milliseconds (taken as fixed: no daylight-saving transitions), the host's
  \<^verbatim>\<open>Date.parse\<close> for strings handed to \<^verbatim>\<open>new Date(string)\<close>, and
  \<^verbatim>\<open>String.prototype.localeCompare\<close> under the host's default locale.
\<close>

record host =
  tzOffset :: int
  dateParse :: "string \<Rightarrow> int option"
  localeCompare :: "string \<Rightarrow> string \<Rightarrow> int"

definition msPerDay :: int where
  "msPerDay = 86400000"

subsection \<open>Calendar arithmetic of ECMAScript\<close>

definition inLeapYear :: "int \<Rightarrow> bool" where
  "inLeapYear y = (y mod 4 = 0 \<and> (y mod 100 \<noteq> 0 \<or> y mod 400 = 0))"

definition dayFromYear :: "int \<Rightarrow> int" where
  "dayFromYear y =
     365 * (y - 1970) + (y - 1969) div 4 - (y - 1901) div 100 + (y - 1601) div 400"

definition monthStart :: "int \<Rightarrow> int" where
  "monthStart m = [0, 31, 59, 90, 120, 151, 181, 212, 243, 273, 304, 334] ! nat m"

text \<open>\<open>makeDay y m d\<close>: the day number of day \<open>d\<close> of month \<open>m\<close> (0 is January) of
  year \<open>y\<close>; months and days out of range carry over, as in ECMAScript's MakeDay.\<close>

definition makeDay :: "int \<Rightarrow> int \<Rightarrow> int \<Rightarrow> int" where
  "makeDay y m d =
     (let ym = y + m div 12; mn = m mod 12
      in dayFromYear ym + monthStart mn + (if inLeapYear ym \<and> 2 \<le> mn then 1 else 0) + d - 1)"

text \<open>The calendar fields of a day number: year, month (0 is January), day of month.\<close>

definition civilFromDay :: "int \<Rightarrow> int \<times> int \<times> int" where
  "civilFromDay z =
     (let z1 = z + 719468;
          era = z1 div 146097;
          doe = z1 - era * 146097;
          yoe = (doe - doe div 1460 + doe div 36524 - doe div 146096) div 365;
          doy = doe - (365 * yoe + yoe div 4 - yoe div 100);
          mp = (5 * doy + 2) div 153;
          d = doy - (153 * mp + 2) div 5 + 1;
          m = (if mp < 10 then mp + 3 else mp - 9);
          y = yoe + era * 400 + (if m \<le> 2 then 1 else 0)
      in (y, m - 1, d))"

text \<open>\<^verbatim>\<open>new Date(year, month, day)\<close> and \<^verbatim>\<open>Date.UTC(year, month, day)\<close>: a NaN
  argument gives the Invalid Date, a year from 0 to 99 means 1900 + year, and the
  constructor reads its arguments as local time.\<close>

definition fullYear :: "int \<Rightarrow> int" where
  "fullYear y = (if 0 \<le> y \<and> y \<le> 99 then 1900 + y else y)"

definition Date_UTC :: "int option \<Rightarrow> int option \<Rightarrow> int option \<Rightarrow> int option" where
  "Date_UTC y m d =
     (case (y, m, d) of
        (Some y', Some m', Some d') \<Rightarrow> Some (msPerDay * makeDay (fullYear y') m' d')
      | _ \<Rightarrow> None)"

definition Date_local :: "host \<Rightarrow> int option \<Rightarrow> int option \<Rightarrow> int option \<Rightarrow> int option" where
  "Date_local h y m d = map_option (\<lambda>t. t - tzOffset h) (Date_UTC y m d)"

definition localDay :: "host \<Rightarrow> int \<Rightarrow> int" where
  "localDay h t = (t + tzOffset h) div msPerDay"

definition getFullYear :: "host \<Rightarrow> int \<Rightarrow> int" where
  "getFullYear h t = fst (civilFromDay (localDay h t))"

definition getMonth :: "host \<Rightarrow> int \<Rightarrow> int" where
  "getMonth h t = fst (snd (civilFromDay (localDay h t)))"

definition getDate :: "host \<Rightarrow> int \<Rightarrow> int" where
  "getDate h t = snd (snd (civilFromDay (localDay h t)))"

text \<open>\<^verbatim>\<open>getDay\<close>: the local day of the week, 0 is Sunday (1970-01-01 was a Thursday).\<close>

definition getDay :: "host \<Rightarrow> int \<Rightarrow> int" where
  "getDay h t = (localDay h t + 4) mod 7"

text \<open>\<^verbatim>\<open>setDate(v)\<close> keeps the local year, month and time of day and replaces the day of
  the month; \<^verbatim>\<open>setHours(hh, mm, ss, ms)\<close> keeps the local day and replaces the time of
  day, given here in milliseconds.\<close>

definition setDate :: "host \<Rightarrow> int \<Rightarrow> int \<Rightarrow> int" where
  "setDate h t v =
     msPerDay * makeDay (getFullYear h t) (getMonth h t) v
       + (t + tzOffset h) mod msPerDay - tzOffset h"

definition setHours :: "host \<Rightarrow> int \<Rightarrow> int \<Rightarrow> int" where
  "setHours h t msOfDay = msPerDay * localDay h t + msOfDay - tzOffset h"

subsection \<open>Characters, \<^verbatim>\<open>parseInt\<close>, \<^verbatim>\<open>split\<close>\<close>

definition isDigit :: "char \<Rightarrow> bool" where
  "isDigit c = (48 \<le> (of_char c :: nat) \<and> (of_char c :: nat) \<le> 57)"

definition isLetter :: "char \<Rightarrow> bool" where
  "isLetter c = ((65 \<le> (of_char c :: nat) \<and> (of_char c :: nat) \<le> 90)
     \<or> (97 \<le> (of_char c :: nat) \<and> (of_char c :: nat) \<le> 122))"

text \<open>White space: the ASCII members of the class \<^verbatim>\<open>\s\<close> (strings are byte strings
  here).\<close>

definition isSpace :: "char \<Rightarrow> bool" where
  "isSpace c = ((of_char c :: nat) \<in> {9, 10, 11, 12, 13, 32})"

definition digitVal :: "char \<Rightarrow> int" where
  "digitVal c =
     (let n = int (of_char c)
      in if 48 \<le> n \<and> n \<le> 57 then n - 48
         else if 97 \<le> n \<and> n \<le> 102 then n - 87
         else if 65 \<le> n \<and> n \<le> 70 then n - 55
         else 99)"

definition readDigits :: "int \<Rightarrow> string \<Rightarrow> int option" where
  "readDigits radix s =
     (let ds = takeWhile (\<lambda>c. digitVal c < radix) s
      in if ds = [] then None
         else Some (foldl (\<lambda>acc c. acc * radix + digitVal c) 0 ds))"

text \<open>\<^verbatim>\<open>parseInt(s)\<close> with no radix: leading white space, a sign, an optional
  \<^verbatim>\<open>0x\<close> prefix, then the longest run of digits; NaN (\<open>None\<close>) when there is none.\<close>

definition parseInt :: "string \<Rightarrow> int option" where
  "parseInt s =
     (let s1 = dropWhile isSpace s;
          neg = (s1 \<noteq> [] \<and> hd s1 = CHR ''-'');
          s2 = (if s1 \<noteq> [] \<and> (hd s1 = CHR ''-'' \<or> hd s1 = CHR ''+'') then tl s1 else s1);
          hex = (take 2 s2 = ''0x'' \<or> take 2 s2 = ''0X'');
          r = (if hex then readDigits 16 (drop 2 s2) else readDigits 10 s2)
      in map_option (\<lambda>n. if neg then - n else n) r)"


fun splitOn :: "char \<Rightarrow> string \<Rightarrow> string list" where
  "splitOn sep [] = [[]]"
| "splitOn sep (c # cs) =
     (if c = sep then [] # splitOn sep cs
      else (case splitOn sep cs of
              p # ps \<Rightarrow> (c # p) # ps
            | [] \<Rightarrow> [[c]]))"

fun indexOf :: "'a list \<Rightarrow> 'a \<Rightarrow> int" where
  "indexOf [] x = - 1"
| "indexOf (y # ys) x =
     (if y = x then 0 else (let i = indexOf ys x in if i = - 1 then - 1 else i + 1))"

text \<open>The regular expression \<^verbatim>\<open>/^([A-Za-z]{3})\s+(\d{1,2}),\s+(\d{4})$/\<close>: the three
  groups of a match, or \<open>None\<close>.\<close>

definition matchMonthDayYear :: "string \<Rightarrow> (string \<times> string \<times> string) option" where
  "matchMonthDayYear s =
     (let mon = take 3 s;
          r1 = drop 3 s;
          r2 = dropWhile isSpace r1;
          dd = takeWhile isDigit r2;
          r3 = dropWhile isDigit r2;
          r4 = drop 1 r3;
          yyyy = dropWhile isSpace r4
      in if length mon = 3 \<and> list_all isLetter mon
            \<and> list_all isSpace (take 1 r1) \<and> r1 \<noteq> []
            \<and> 1 \<le> length dd \<and> length dd \<le> 2
            \<and> take 1 r3 = '',''
            \<and> list_all isSpace (take 1 r4) \<and> r4 \<noteq> []
            \<and> length yyyy = 4 \<and> list_all isDigit yyyy
         then Some (mon, dd, yyyy)
         else None)"

section \<open>Date Normalizer: \<^verbatim>\<open>normalizeDate\<close>\<close>

text \<open>The argument of \<^verbatim>\<open>normalizeDate(date: Date | string)\<close>, and the warnings it
  writes to the console.\<close>

datatype date_arg = DateObj "int option" | DateStr string

datatype log_entry = WarnInvalidDate date_arg

definition monthNames :: "string list" where
  "monthNames = [''Jan'', ''Feb'', ''Mar'', ''Apr'', ''May'', ''Jun'',
                 ''Jul'', ''Aug'', ''Sep'', ''Oct'', ''Nov'', ''Dec'']"

definition minus1 :: "int option \<Rightarrow> int option" where
  "minus1 n = map_option (\<lambda>k. k - 1) n"

text \<open>The first half of \<^verbatim>\<open>normalizeDate\<close>: the \<^verbatim>\<open>Date\<close> named \<^verbatim>\<open>d\<close> that the
  branches on the argument's form build.\<close>

definition parsedDate :: "host \<Rightarrow> date_arg \<Rightarrow> int option" where
  "parsedDate h date =
     (case date of
        DateObj d \<Rightarrow> d
      | DateStr s \<Rightarrow>
          (case matchMonthDayYear s of
             Some (mon, dd, yyyy) \<Rightarrow>
               (let month = indexOf monthNames mon;
                    day = parseInt dd;
                    year = parseInt yyyy
                in if month \<noteq> - 1 then Date_local h year (Some month) day
                   else dateParse h s)
           | None \<Rightarrow>
               if CHR ''/'' \<in> set s then
                 (let parts = splitOn CHR ''/'' s
                  in if length parts = 3
                     then Date_local h (parseInt (parts ! 2)) (minus1 (parseInt (parts ! 0)))
                            (parseInt (parts ! 1))
                     else dateParse h s)
               else if length s = 8 \<and> list_all isDigit s then
                 (let year = parseInt (take 4 s);
                      month = minus1 (parseInt (take 2 (drop 4 s)));
                      day = parseInt (take 2 (drop 6 s))
                  in Date_local h year month day)
               else dateParse h s))"

text \<open>The second half: an Invalid Date gives a warning and \<^verbatim>\<open>Date.UTC(1970, 0, 1)\<close>;
  a valid one gives \<^verbatim>\<open>Date.UTC\<close> of its local year, month and day. The result is
  the date together with the warnings written.\<close>

definition utcDate :: "int \<Rightarrow> int \<Rightarrow> int \<Rightarrow> int" where
  "utcDate y m d = msPerDay * makeDay (fullYear y) m d"

definition normalizeDate :: "host \<Rightarrow> date_arg \<Rightarrow> int \<times> log_entry list" where
  "normalizeDate h date =
     (case parsedDate h date of
        None \<Rightarrow> (utcDate 1970 0 1, [WarnInvalidDate date])
      | Some d \<Rightarrow> (utcDate (getFullYear h d) (getMonth h d) (getDate h d), []))"

abbreviation normalized :: "host \<Rightarrow> date_arg \<Rightarrow> int" where
  "normalized h date \<equiv> fst (normalizeDate h date)"

section \<open>Week Calendar: \<^verbatim>\<open>getWeekNumber\<close>, \<^verbatim>\<open>getWeekDates\<close>\<close>

text \<open>The default season start, \<^verbatim>\<open>new Date('2024-10-22')\<close>: midnight UTC of Tuesday
  22 October 2024.\<close>

definition defaultSeasonStart :: int where
  "defaultSeasonStart = 1729555200000"

definition getWeekNumber :: "host \<Rightarrow> int \<Rightarrow> int \<Rightarrow> int" where
  "getWeekNumber h date seasonStartDate =
     (let normalizedDate = normalized h (DateObj (Some date));
          normalizedStart = normalized h (DateObj (Some seasonStartDate));
          diffTime = normalizedDate - normalizedStart;
          diffDays = diffTime div (1000 * 60 * 60 * 24);
          weekNumber = diffDays div 7 + 1
      in max 1 weekNumber)"

definition getWeekDates :: "host \<Rightarrow> int \<Rightarrow> int \<Rightarrow> int \<times> int" where
  "getWeekDates h weekNumber seasonStartDate =
     (let startDays = (weekNumber - 1) * 7;
          start1 = setDate h seasonStartDate (getDate h seasonStartDate + startDays);
          dayOfWeek = getDay h start1;
          diffToMonday = (if dayOfWeek = 0 then - 6 else 1 - dayOfWeek);
          start2 = setDate h start1 (getDate h start1 + diffToMonday);
          start = setHours h start2 0;
          end1 = setDate h start (getDate h start + 6);
          end2 = setHours h end1 (((23 * 60 + 59) * 60 + 59) * 1000 + 999)
      in (start, end2))"

section \<open>Arrays and \<^verbatim>\<open>Map\<close>s\<close>

text \<open>
  A JavaScript \<^verbatim>\<open>Map\<close> keeps its keys in insertion order and \<^verbatim>\<open>set\<close> on a key that is
  present replaces the value in place: an association list under \<^const>\<open>AList.update\<close>,
  read with \<^const>\<open>map_of\<close>. \<^verbatim>\<open>Array.prototype.sort\<close> with a comparator is stable;
  it is modelled by the stable insertion sort, which is what every stable sort returns
  when the comparator is a consistent ordering.
\<close>

fun findIndex :: "('a \<Rightarrow> bool) \<Rightarrow> 'a list \<Rightarrow> nat option" where
  "findIndex P [] = None"
| "findIndex P (x # xs) =
     (if P x then Some 0 else map_option Suc (findIndex P xs))"

fun insertBy :: "('a \<Rightarrow> 'a \<Rightarrow> int) \<Rightarrow> 'a \<Rightarrow> 'a list \<Rightarrow> 'a list" where
  "insertBy cmp x [] = [x]"
| "insertBy cmp x (y # ys) =
     (if cmp x y \<le> 0 then x # y # ys else y # insertBy cmp x ys)"

definition sortBy :: "('a \<Rightarrow> 'a \<Rightarrow> int) \<Rightarrow> 'a list \<Rightarrow> 'a list" where
  "sortBy cmp xs = foldr (insertBy cmp) xs []"

definition getOr0 :: "(int \<times> int) list \<Rightarrow> int \<Rightarrow> int" where
  "getOr0 m k = (case map_of m k of None \<Rightarrow> 0 | Some v \<Rightarrow> v)"

section \<open>Weekly Points Aggregator: \<^verbatim>\<open>calculateWeeklyPoints\<close>\<close>

record PlayerGameLog =
  date :: string
  points :: int

record WeeklyPoints =
  weekNumber :: int
  weekStartDate :: int
  weekEndDate :: int
  weekPoints :: int

text \<open>The predicate of the \<^verbatim>\<open>filter\<close> call: \<^verbatim>\<open>isInRange\<close> of one game. The sale date
  is \<open>None\<close> for \<^verbatim>\<open>null\<close>.\<close>

definition isInRange :: "host \<Rightarrow> int \<Rightarrow> int option \<Rightarrow> PlayerGameLog \<Rightarrow> bool" where
  "isInRange h purchaseDate saleDate game =
     (let normalizedPurchaseDate = normalized h (DateObj (Some purchaseDate));
          normalizedSaleDate = map_option (\<lambda>s. normalized h (DateObj (Some s))) saleDate;
          gameDate = normalized h (DateStr (date game));
          isAfterPurchase = (normalizedPurchaseDate \<le> gameDate);
          isBeforeSale = (case normalizedSaleDate of None \<Rightarrow> True | Some s \<Rightarrow> gameDate < s)
      in isAfterPurchase \<and> isBeforeSale)"

text \<open>The body of the grouping loop: one game added to \<^verbatim>\<open>weeklyPointsMap\<close>.\<close>

definition addGame :: "host \<Rightarrow> int \<Rightarrow> (int \<times> int) list \<Rightarrow> PlayerGameLog \<Rightarrow> (int \<times> int) list" where
  "addGame h normalizedSeasonStart weeklyPointsMap game =
     (let gameDate = normalized h (DateStr (date game));
          weekNumber = getWeekNumber h gameDate normalizedSeasonStart;
          currentPoints = getOr0 weeklyPointsMap weekNumber
      in AList.update weekNumber (currentPoints + points game) weeklyPointsMap)"

definition toWeeklyPoints :: "host \<Rightarrow> int \<Rightarrow> int \<times> int \<Rightarrow> WeeklyPoints" where
  "toWeeklyPoints h normalizedSeasonStart e =
     (let (start, end1) = getWeekDates h (fst e) normalizedSeasonStart
      in \<lparr>weekNumber = fst e, weekStartDate = start, weekEndDate = end1, weekPoints = snd e\<rparr>)"

definition calculateWeeklyPoints ::
  "host \<Rightarrow> PlayerGameLog list \<Rightarrow> int \<Rightarrow> int option \<Rightarrow> int \<Rightarrow> WeeklyPoints list" where
  "calculateWeeklyPoints h gameLogs purchaseDate saleDate seasonStartDate =
     (let normalizedSeasonStart = normalized h (DateObj (Some seasonStartDate));
          filteredGames = filter (isInRange h purchaseDate saleDate) gameLogs;
          weeklyPointsMap = foldl (addGame h normalizedSeasonStart) [] filteredGames;
          weeklyPoints = map (toWeeklyPoints h normalizedSeasonStart) weeklyPointsMap
      in sortBy (\<lambda>a b. weekNumber a - weekNumber b) weeklyPoints)"

section \<open>Ownership Interval Reconstructor: \<^verbatim>\<open>getPlayerOwnershipPeriods\<close>\<close>

text \<open>
  The rows the function reads. Timestamps of the store (\<^verbatim>\<open>TIMESTAMP WITH TIME ZONE\<close>
  columns) are given as the time values of the \<^verbatim>\<open>Date\<close>s built from them. The user id
  joined from \<^verbatim>\<open>user_teams\<close> is optional (\<^verbatim>\<open>team?.user_id\<close>); field names carry the
  table's initials where two tables share a column name.
\<close>

record pot_row =
  pot_team_id :: string
  pot_player_id :: int
  pot_player_name :: string
  pot_purchased_at :: "int option"
  pot_created_at :: int
  pot_user_id :: "string option"

record tx_row =
  tx_buyer_team_id :: string
  tx_seller_team_id :: string
  tx_player_id :: int
  tx_player_name :: string
  tx_created_at :: int
  tx_buyer_user_id :: "string option"
  tx_seller_user_id :: "string option"

text \<open>An entry of \<^verbatim>\<open>playerHistoryMap\<close>, and \<^verbatim>\<open>PlayerOwnershipPeriod\<close>, which has the
  same four fields and the player's id and name.\<close>

record history_entry =
  userId :: string
  teamId :: string
  purchaseDate :: int
  saleDate :: "int option"

record PlayerOwnershipPeriod = history_entry +
  playerId :: int
  playerName :: string

text \<open>\<^verbatim>\<open>!x\<close> for an optional string: \<^verbatim>\<open>undefined\<close> and the empty string are falsy.\<close>

definition falsy :: "string option \<Rightarrow> bool" where
  "falsy u = (u = None \<or> u = Some [])"

definition historyOf :: "(int \<times> history_entry list) list \<Rightarrow> int \<Rightarrow> history_entry list" where
  "historyOf playerHistoryMap pid =
     (case map_of playerHistoryMap pid of None \<Rightarrow> [] | Some hs \<Rightarrow> hs)"

definition isOpenFor :: "string \<Rightarrow> string \<Rightarrow> history_entry \<Rightarrow> bool" where
  "isOpenFor u t p = (userId p = u \<and> teamId p = t \<and> saleDate p = None)"

text \<open>Step 1, what one transaction does to the history of its player: the period that
  \<^verbatim>\<open>find\<close> returns is closed in place, then the buyer's period is pushed.\<close>

definition sellAndBuy ::
  "string \<Rightarrow> string \<Rightarrow> string \<Rightarrow> string \<Rightarrow> int \<Rightarrow> history_entry list \<Rightarrow> history_entry list" where
  "sellAndBuy sellerUserId sellerTeamId buyerUserId buyerTeamId transactionDate history =
     (let history1 =
            (case findIndex (isOpenFor sellerUserId sellerTeamId) history of
               Some i \<Rightarrow> history[i := (history ! i)\<lparr>saleDate := Some transactionDate\<rparr>]
             | None \<Rightarrow> history)
      in history1 @ [\<lparr>userId = buyerUserId, teamId = buyerTeamId,
                      purchaseDate = transactionDate, saleDate = None\<rparr>])"

text \<open>The body of \<^verbatim>\<open>transactions.forEach\<close>.\<close>

definition processTransaction ::
  "(int \<times> history_entry list) list \<Rightarrow> tx_row \<Rightarrow> (int \<times> history_entry list) list" where
  "processTransaction playerHistoryMap transaction =
     (if falsy (tx_buyer_user_id transaction) \<or> falsy (tx_seller_user_id transaction)
      then playerHistoryMap
      else
        (let buyerUserId = the (tx_buyer_user_id transaction);
             sellerUserId = the (tx_seller_user_id transaction);
             pid = tx_player_id transaction;
             history = historyOf playerHistoryMap pid
         in AList.update pid
              (sellAndBuy sellerUserId (tx_seller_team_id transaction)
                 buyerUserId (tx_buyer_team_id transaction) (tx_created_at transaction) history)
              playerHistoryMap))"

text \<open>Step 2, the body of the loop over \<^verbatim>\<open>playersOnTeam\<close>: the period pushed for one
  roster row, or \<open>None\<close> when the row is skipped.\<close>

definition rosterPeriod ::
  "(int \<times> history_entry list) list \<Rightarrow> pot_row \<Rightarrow> PlayerOwnershipPeriod option" where
  "rosterPeriod playerHistoryMap player =
     (if falsy (pot_user_id player) then None
      else
        (let uid = the (pot_user_id player);
             pid = pot_player_id player;
             purchaseDate1 = (case pot_purchased_at player of
                                Some t \<Rightarrow> t | None \<Rightarrow> pot_created_at player);
             history = historyOf playerHistoryMap pid;
             existingActivePeriod = find (isOpenFor uid (pot_team_id player)) history
         in Some \<lparr>userId = uid, teamId = pot_team_id player,
                  purchaseDate = (case existingActivePeriod of
                                    Some e \<Rightarrow> purchaseDate e | None \<Rightarrow> purchaseDate1),
                  saleDate = None,
                  playerId = pid, playerName = pot_player_name player\<rparr>))"

text \<open>Step 3: the name given to a player's closed periods, the duplicate test, and the
  body of the inner \<^verbatim>\<open>history.forEach\<close>.\<close>

fun showNat :: "nat \<Rightarrow> string" where
  "showNat n =
     (if n < 10 then [char_of (48 + n)]
      else showNat (n div 10) @ [char_of (48 + n mod 10)])"

definition showInt :: "int \<Rightarrow> string" where
  "showInt i = (if i < 0 then CHR ''-'' # showNat (nat (- i)) else showNat (nat i))"

definition closedPlayerName :: "pot_row list \<Rightarrow> tx_row list \<Rightarrow> int \<Rightarrow> string" where
  "closedPlayerName playersOnTeam transactions pid =
     (let name1 = (case find (\<lambda>p. pot_player_id p = pid) playersOnTeam of
                     Some p \<Rightarrow> pot_player_name p | None \<Rightarrow> []);
          name2 = (case find (\<lambda>t. tx_player_id t = pid) transactions of
                     Some t \<Rightarrow> tx_player_name t | None \<Rightarrow> [])
      in if name1 \<noteq> [] then name1
         else if name2 \<noteq> [] then name2
         else ''Jugador '' @ showInt pid)"

definition alreadyAdded :: "PlayerOwnershipPeriod list \<Rightarrow> int \<Rightarrow> history_entry \<Rightarrow> bool" where
  "alreadyAdded periods pid period =
     list_ex (\<lambda>p. playerId p = pid \<and> userId p = userId period \<and> teamId p = teamId period
                \<and> \<bar>purchaseDate p - purchaseDate period\<bar> < 1000) periods"

definition emitClosed ::
  "int \<Rightarrow> string \<Rightarrow> PlayerOwnershipPeriod list \<Rightarrow> history_entry \<Rightarrow> PlayerOwnershipPeriod list" where
  "emitClosed pid pname periods period =
     (if saleDate period \<noteq> None then
        (if \<not> alreadyAdded periods pid period then
           periods @ [\<lparr>userId = userId period, teamId = teamId period,
                       purchaseDate = purchaseDate period, saleDate = saleDate period,
                       playerId = pid, playerName = pname\<rparr>]
         else periods)
      else periods)"

definition emitHistory ::
  "pot_row list \<Rightarrow> tx_row list \<Rightarrow> PlayerOwnershipPeriod list \<Rightarrow> int \<times> history_entry list
     \<Rightarrow> PlayerOwnershipPeriod list" where
  "emitHistory playersOnTeam transactions periods e =
     foldl (emitClosed (fst e) (closedPlayerName playersOnTeam transactions (fst e)))
       periods (snd e)"

text \<open>The function. Its two queries are its inputs: \<open>None\<close> is a query that returned an
  error. A failed roster query returns the empty list; a failed transaction query is
  logged and the function goes on with no transactions.\<close>

definition getPlayerOwnershipPeriods ::
  "pot_row list option \<Rightarrow> tx_row list option \<Rightarrow> PlayerOwnershipPeriod list" where
  "getPlayerOwnershipPeriods playersResult transactionsResult =
     (case playersResult of
        None \<Rightarrow> []
      | Some playersOnTeam \<Rightarrow>
          (let transactions = (case transactionsResult of None \<Rightarrow> [] | Some ts \<Rightarrow> ts);
               playerHistoryMap = foldl processTransaction [] transactions;
               periods = List.map_filter (rosterPeriod playerHistoryMap) playersOnTeam
           in foldl (emitHistory playersOnTeam transactions) periods playerHistoryMap))"

section \<open>Ranking Calculator: \<^verbatim>\<open>calculateRankings\<close>\<close>

record ut_row =
  ut_id :: string
  ut_user_id :: string
  ut_team_name :: string

text \<open>\<^verbatim>\<open>TeamRanking\<close>; its owner fields are named \<open>rankUserId\<close> and \<open>rankTeamId\<close> here
  (\<^verbatim>\<open>userId\<close> and \<^verbatim>\<open>teamId\<close> in the source).\<close>

record TeamRanking =
  rankUserId :: string
  rankTeamId :: string
  teamName :: string
  totalPoints :: int
  weeklyBreakdown :: "(int \<times> int) list"

definition initRanking :: "(string \<times> TeamRanking) list \<Rightarrow> ut_row \<Rightarrow> (string \<times> TeamRanking) list" where
  "initRanking userRankingsMap team =
     AList.update (ut_user_id team)
       \<lparr>rankUserId = ut_user_id team, rankTeamId = ut_id team, teamName = ut_team_name team,
        totalPoints = 0, weeklyBreakdown = []\<rparr>
       userRankingsMap"

text \<open>The body of \<^verbatim>\<open>weeklyPoints.forEach\<close>: one week added to a ranking.\<close>

definition addWeekly :: "TeamRanking \<Rightarrow> WeeklyPoints \<Rightarrow> TeamRanking" where
  "addWeekly ranking weekly =
     (let currentWeekPoints = getOr0 (weeklyBreakdown ranking) (weekNumber weekly);
          newWeekPoints = currentWeekPoints + weekPoints weekly
      in ranking\<lparr>weeklyBreakdown :=
                    AList.update (weekNumber weekly) newWeekPoints (weeklyBreakdown ranking),
                  totalPoints := totalPoints ranking + weekPoints weekly\<rparr>)"

text \<open>The body of the loop over \<^verbatim>\<open>ownershipPeriods\<close>. The ranking is looked up by the
  period's user; failing that it is created from the team with the period's team id;
  failing that the period is skipped (\<^verbatim>\<open>continue\<close>). The game logs are those fetched
  for the period's player (\<open>gameLogsOf\<close>, the empty list where the fetch failed).\<close>

definition processPeriod ::
  "host \<Rightarrow> ut_row list \<Rightarrow> (int \<Rightarrow> PlayerGameLog list) \<Rightarrow> (string \<times> TeamRanking) list
     \<Rightarrow> PlayerOwnershipPeriod \<Rightarrow> (string \<times> TeamRanking) list" where
  "processPeriod h teams gameLogsOf userRankingsMap period =
     (let gameLogs = gameLogsOf (playerId period);
          found =
            (case map_of userRankingsMap (userId period) of
               Some r \<Rightarrow> Some r
             | None \<Rightarrow>
                 (case find (\<lambda>t. ut_id t = teamId period) teams of
                    Some team \<Rightarrow>
                      Some \<lparr>rankUserId = userId period, rankTeamId = teamId period,
                            teamName = ut_team_name team, totalPoints = 0,
                            weeklyBreakdown = []\<rparr>
                  | None \<Rightarrow> None))
      in case found of
           None \<Rightarrow> userRankingsMap
         | Some ranking \<Rightarrow>
             (let weeklyPoints =
                    calculateWeeklyPoints h gameLogs (purchaseDate period) (saleDate period)
                      defaultSeasonStart
              in AList.update (userId period) (foldl addWeekly ranking weeklyPoints)
                   userRankingsMap))"

text \<open>The comparator of both \<^verbatim>\<open>rankings.sort\<close> calls.\<close>

definition compareRankings :: "host \<Rightarrow> TeamRanking \<Rightarrow> TeamRanking \<Rightarrow> int" where
  "compareRankings h a b =
     (if totalPoints b \<noteq> totalPoints a then totalPoints b - totalPoints a
      else localeCompare h (teamName a) (teamName b))"

text \<open>The teams pushed after the first sort: those whose user is not in
  \<^verbatim>\<open>rankedUserIds\<close>, the set taken before the loop.\<close>

definition missingTeams :: "TeamRanking list \<Rightarrow> ut_row list \<Rightarrow> TeamRanking list" where
  "missingTeams rankings teams =
     map (\<lambda>team. \<lparr>rankUserId = ut_user_id team, rankTeamId = ut_id team,
                   teamName = ut_team_name team, totalPoints = 0, weeklyBreakdown = []\<rparr>)
       (filter (\<lambda>team. ut_user_id team \<notin> set (map rankUserId rankings)) teams)"

text \<open>The function. Its inputs are the result of the team query (\<open>None\<close> for an error),
  the two queries of \<^const>\<open>getPlayerOwnershipPeriods\<close> and the game logs fetched per
  player.\<close>

definition calculateRankings ::
  "host \<Rightarrow> ut_row list option \<Rightarrow> pot_row list option \<Rightarrow> tx_row list option
     \<Rightarrow> (int \<Rightarrow> PlayerGameLog list) \<Rightarrow> TeamRanking list" where
  "calculateRankings h teamsResult playersResult transactionsResult gameLogsOf =
     (case teamsResult of
        None \<Rightarrow> []
      | Some teams \<Rightarrow>
          if teams = [] then []
          else
            (let ownershipPeriods = getPlayerOwnershipPeriods playersResult transactionsResult;
                 userRankingsMap0 = foldl initRanking [] teams;
                 userRankingsMap =
                   foldl (processPeriod h teams gameLogsOf) userRankingsMap0 ownershipPeriods;
                 rankings = sortBy (compareRankings h) (map snd userRankingsMap);
                 rankings1 = rankings @ missingTeams rankings teams
             in sortBy (compareRankings h) rankings1))"

section \<open>Ranking Cache\<close>









section \<open>A host for examples\<close>

text \<open>A host on UTC whose \<^verbatim>\<open>Date.parse\<close> reads the date-only form \<^verbatim>\<open>YYYY-MM-DD\<close> of
  the ECMAScript date-time format (as midnight UTC) and nothing else, and whose
  \<^verbatim>\<open>localeCompare\<close> orders strings by their code units.\<close>

definition isoDateParse :: "string \<Rightarrow> int option" where
  "isoDateParse s =
     (if length s = 10 \<and> list_all isDigit (take 4 s) \<and> s ! 4 = CHR ''-''
         \<and> list_all isDigit (take 2 (drop 5 s)) \<and> s ! 7 = CHR ''-''
         \<and> list_all isDigit (drop 8 s)
      then (case (parseInt (take 4 s), parseInt (take 2 (drop 5 s)), parseInt (drop 8 s)) of
              (Some y, Some m, Some d) \<Rightarrow>
                if 1 \<le> m \<and> m \<le> 12 \<and> 1 \<le> d
                   \<and> civilFromDay (makeDay y (m - 1) d) = (y, m - 1, d)
                then Some (msPerDay * makeDay y (m - 1) d)
                else None
            | _ \<Rightarrow> None)
      else None)"

fun codeUnitCompare :: "string \<Rightarrow> string \<Rightarrow> int" where
  "codeUnitCompare [] [] = 0"
| "codeUnitCompare [] (b # bs) = - 1"
| "codeUnitCompare (a # as) [] = 1"
| "codeUnitCompare (a # as) (b # bs) =
     (if (of_char a :: nat) < of_char b then - 1
      else if (of_char b :: nat) < of_char a then 1
      else codeUnitCompare as bs)"

definition utcHost :: host where
  "utcHost = \<lparr>tzOffset = 0, dateParse = isoDateParse, localeCompare = codeUnitCompare\<rparr>"

section \<open>Example data\<close>

text \<open>Player 7 is bought by team B from team A, bought again by team B from team C, and
  then sold by team B to team D.\<close>

definition txAB :: tx_row where
  "txAB = \<lparr>tx_buyer_team_id = ''tB'', tx_seller_team_id = ''tA'', tx_player_id = 7,
           tx_player_name = ''P7'', tx_created_at = 100,
           tx_buyer_user_id = Some ''uB'', tx_seller_user_id = Some ''uA''\<rparr>"

definition txCB :: tx_row where
  "txCB = \<lparr>tx_buyer_team_id = ''tB'', tx_seller_team_id = ''tC'', tx_player_id = 7,
           tx_player_name = ''P7'', tx_created_at = 200,
           tx_buyer_user_id = Some ''uB'', tx_seller_user_id = Some ''uC''\<rparr>"

definition txBD :: tx_row where
  "txBD = \<lparr>tx_buyer_team_id = ''tD'', tx_seller_team_id = ''tB'', tx_player_id = 7,
           tx_player_name = ''P7'', tx_created_at = 300,
           tx_buyer_user_id = Some ''uD'', tx_seller_user_id = Some ''uB''\<rparr>"

definition rowD :: pot_row where
  "rowD = \<lparr>pot_team_id = ''tD'', pot_player_id = 7, pot_player_name = ''P7'',
           pot_purchased_at = Some 50, pot_created_at = 10, pot_user_id = Some ''uD''\<rparr>"

definition rowB :: pot_row where
  "rowB = \<lparr>pot_team_id = ''tB'', pot_player_id = 7, pot_player_name = ''P7'',
           pot_purchased_at = Some 50, pot_created_at = 10, pot_user_id = Some ''uB''\<rparr>"

text \<open>Scenario A of the specification, with a third game: bought on 25 October 2024
  (midnight UTC), never sold.\<close>

definition gamesA :: "PlayerGameLog list" where
  "gamesA = [\<lparr>date = ''2024-10-24'', points = 10\<rparr>,
             \<lparr>date = ''Nov 01, 2024'', points = 20\<rparr>,
             \<lparr>date = ''20241112'', points = 7\<rparr>]"

definition purchaseA :: int where
  "purchaseA = 1729814400000"



text \<open>Three teams of three users; player 7 on the third team, or on the first two at
  once; the game log of player 7.\<close>

definition teams3 :: "ut_row list" where
  "teams3 = [\<lparr>ut_id = ''t1'', ut_user_id = ''u1'', ut_team_name = ''Zeta''\<rparr>,
             \<lparr>ut_id = ''t2'', ut_user_id = ''u2'', ut_team_name = ''Alpha''\<rparr>,
             \<lparr>ut_id = ''t3'', ut_user_id = ''u3'', ut_team_name = ''Mid''\<rparr>]"

definition roster3 :: "pot_row list" where
  "roster3 = [\<lparr>pot_team_id = ''t3'', pot_player_id = 7, pot_player_name = ''P7'',
               pot_purchased_at = Some purchaseA, pot_created_at = purchaseA,
               pot_user_id = Some ''u3''\<rparr>]"

definition rosterTwoHolders :: "pot_row list" where
  "rosterTwoHolders =
     [\<lparr>pot_team_id = ''t1'', pot_player_id = 7, pot_player_name = ''P7'',
       pot_purchased_at = Some purchaseA, pot_created_at = purchaseA,
       pot_user_id = Some ''u1''\<rparr>,
      \<lparr>pot_team_id = ''t2'', pot_player_id = 7, pot_player_name = ''P7'',
       pot_purchased_at = Some (purchaseA + msPerDay), pot_created_at = purchaseA,
       pot_user_id = Some ''u2''\<rparr>]"

definition logs7 :: "int \<Rightarrow> PlayerGameLog list" where
  "logs7 pid = (if pid = 7 then gamesA else [])"




section \<open>Notions used to state and prove the properties\<close>

text \<open>The week of a game; a ranking with no points; the weekly points of one ownership
  period; the three fields of a ranking that never change; the points of a ranking agree
  with its weekly breakdown; a user who bought in some transaction; the points of the
  games inside one ownership period.\<close>

abbreviation weekOf :: "host \<Rightarrow> int \<Rightarrow> PlayerGameLog \<Rightarrow> int" where
  "weekOf h nss g \<equiv> getWeekNumber h (normalized h (DateStr (date g))) nss"

abbreviation zeroRanking :: "ut_row \<Rightarrow> TeamRanking" where
  "zeroRanking team \<equiv>
     \<lparr>rankUserId = ut_user_id team, rankTeamId = ut_id team, teamName = ut_team_name team,
      totalPoints = 0, weeklyBreakdown = []\<rparr>"

abbreviation periodWeeks ::
  "host \<Rightarrow> (int \<Rightarrow> PlayerGameLog list) \<Rightarrow> PlayerOwnershipPeriod \<Rightarrow> WeeklyPoints list" where
  "periodWeeks h logs p \<equiv>
     calculateWeeklyPoints h (logs (playerId p)) (purchaseDate p) (saleDate p) defaultSeasonStart"

definition shape :: "TeamRanking \<Rightarrow> string \<times> string \<times> string" where
  "shape r = (rankUserId r, rankTeamId r, teamName r)"

definition balanced :: "TeamRanking \<Rightarrow> bool" where
  "balanced r = (distinct (map fst (weeklyBreakdown r))
                 \<and> totalPoints r = sum_list (map snd (weeklyBreakdown r)))"

definition boughtBy :: "tx_row list \<Rightarrow> string \<Rightarrow> bool" where
  "boughtBy txs u = (\<exists>tx\<in>set txs. tx_buyer_user_id tx = Some u)"

definition periodPoints ::
  "host \<Rightarrow> (int \<Rightarrow> PlayerGameLog list) \<Rightarrow> PlayerOwnershipPeriod \<Rightarrow> int" where
  "periodPoints h gameLogsOf period =
     sum_list (map points
       (filter (isInRange h (purchaseDate period) (saleDate period))
          (gameLogsOf (playerId period))))"

text \<open>Two teams of one user.\<close>

definition teamsTwoForOneUser :: "ut_row list" where
  "teamsTwoForOneUser = [\<lparr>ut_id = ''t1'', ut_user_id = ''u1'', ut_team_name = ''Alpha''\<rparr>,
                         \<lparr>ut_id = ''t2'', ut_user_id = ''u1'', ut_team_name = ''Beta''\<rparr>]"

text \<open>The points one run attributes to a player: the total of all rankings when only that
  player's game log is kept.\<close>

definition attributedPoints ::
  "host \<Rightarrow> ut_row list option \<Rightarrow> pot_row list option \<Rightarrow> tx_row list option
     \<Rightarrow> (int \<Rightarrow> PlayerGameLog list) \<Rightarrow> int \<Rightarrow> int" where
  "attributedPoints h teamsResult playersResult transactionsResult gameLogsOf pid =
     sum_list (map totalPoints
       (calculateRankings h teamsResult playersResult transactionsResult
          (\<lambda>i. if i = pid then gameLogsOf i else [])))"

text \<open>The specification's side of the conservation property: the points of a player's
  games that fall within the union of that player's ownership intervals.\<close>

definition unionPoints ::
  "host \<Rightarrow> PlayerOwnershipPeriod list \<Rightarrow> PlayerGameLog list \<Rightarrow> int \<Rightarrow> int" where
  "unionPoints h periods gameLog pid =
     sum_list (map points
       (filter (\<lambda>g. list_ex (\<lambda>p. playerId p = pid
                                \<and> isInRange h (purchaseDate p) (saleDate p) g) periods)
          gameLog))"


section \<open>Properties\<close>

subsection \<open>Arrays, \<^verbatim>\<open>Map\<close>s and sorting\<close>

lemma findIndex_None: "(findIndex P xs = None) = (\<forall>x\<in>set xs. \<not> P x)"
  by (induction xs) auto

lemma findIndex_Some:
  "findIndex P xs = Some i \<Longrightarrow> i < length xs \<and> P (xs ! i) \<and> (\<forall>j<i. \<not> P (xs ! j))"
proof (induction xs arbitrary: i)
  case Nil
  then show ?case by simp
next
  case (Cons x xs)
  show ?case
  proof (cases "P x")
    case True
    with Cons.prems show ?thesis by simp
  next
    case False
    with Cons.prems obtain k where k: "findIndex P xs = Some k" "i = Suc k"
      by auto
    from Cons.IH[OF k(1)] False k(2) show ?thesis
      by (auto simp: nth_Cons split: nat.splits)
  qed
qed

lemma find_findIndex:
  "find P xs = map_option (\<lambda>i. xs ! i) (findIndex P xs)"
  by (induction xs) (auto simp: option.map_comp comp_def)

lemma mset_insertBy: "mset (insertBy cmp x ys) = add_mset x (mset ys)"
  by (induction ys) auto

lemma mset_sortBy: "mset (sortBy cmp xs) = mset xs"
  by (induction xs) (auto simp: sortBy_def mset_insertBy)

lemma set_sortBy: "set (sortBy cmp xs) = set xs"
  using mset_sortBy[of cmp xs] by (metis set_mset_mset)


lemma sum_list_sortBy: "sum_list (map f (sortBy cmp xs)) = (sum_list (map f xs) :: int)"
proof -
  have "mset (map f (sortBy cmp xs)) = mset (map f xs)"
    by (simp add: mset_sortBy)
  then show ?thesis by (metis sum_mset_sum_list)
qed

lemma insertBy_diff: "insertBy (\<lambda>a b. f a - f b) x ys = insort_key (f :: 'a \<Rightarrow> int) x ys"
  by (induction ys) auto

lemma sortBy_diff: "sortBy (\<lambda>a b. f a - f b) xs = sort_key (f :: 'a \<Rightarrow> int) xs"
  by (induction xs) (auto simp: sortBy_def insertBy_diff sort_key_def)

lemma sum_snd_update:
  "distinct (map fst m) \<Longrightarrow>
   sum_list (map snd (AList.update k v m)) = sum_list (map snd m) - getOr0 m k + (v :: int)"
proof (induction m)
  case Nil
  then show ?case by (simp add: getOr0_def)
next
  case (Cons a m)
  show ?case
  proof (cases "fst a = k")
    case True
    then have "map_of (a # m) k = Some (snd a)" by (cases a) simp
    with True show ?thesis by (simp add: getOr0_def)
  next
    case False
    with Cons show ?thesis by (cases a) (simp add: getOr0_def)
  qed
qed

lemma getOr0_update: "getOr0 (AList.update k v m) k' = (if k' = k then v else getOr0 m k')"
  by (simp add: getOr0_def update_conv')

lemma map_of_getOr0: "distinct (map fst m) \<Longrightarrow> (k, v) \<in> set m \<Longrightarrow> getOr0 m k = v"
  by (simp add: getOr0_def)

subsection \<open>Date Normalizer\<close>


lemma isLetter_facts:
  assumes "isLetter c"
  shows "\<not> isSpace c" "\<not> isDigit c" "c \<noteq> CHR ''/''"
  using assms by (auto simp: isDigit_def isSpace_def isLetter_def)

lemma isSpace_facts:
  assumes "isSpace c"
  shows "\<not> isDigit c" "\<not> isLetter c"
  using assms by (auto simp: isDigit_def isSpace_def isLetter_def)










lemma indexOf_nonneg_or: "indexOf xs x = - 1 \<or> 0 \<le> indexOf xs x"
  by (induction xs) (auto simp: Let_def)

















subsection \<open>Week Calendar\<close>

text \<open>
  C3. \<^verbatim>\<open>getWeekNumber\<close> and \<^verbatim>\<open>getWeekDates\<close> are claimed to be exact inverses. They are
  not, on the default season start (Tuesday 22 October 2024) and a host on UTC:
  \<^verbatim>\<open>getWeekNumber\<close> counts blocks of seven days from the season start, while
  \<^verbatim>\<open>getWeekDates\<close> moves the start of the block back to its Monday. Monday 28 October 2024
  (time value 1730073600000) is in week 1 by \<^verbatim>\<open>getWeekNumber\<close>, but the range of week 1
  ends on Sunday 27 October at 23:59:59.999, and the range that does hold that Monday is
  the one of week 2.
\<close>

theorem week_functions_disagree:
  "getWeekNumber utcHost 1730073600000 defaultSeasonStart = 1
   \<and> getWeekDates utcHost 1 defaultSeasonStart = (1729468800000, 1730073599999)
   \<and> getWeekDates utcHost 2 defaultSeasonStart = (1730073600000, 1730678399999)
   \<and> defaultSeasonStart \<le> 1730073600000"
  by code_simp

subsection \<open>Weekly Points Aggregator\<close>

lemma addGame_distinct:
  "distinct (map fst m) \<Longrightarrow> distinct (map fst (foldl (addGame h nss) m gs))"
  by (induction gs arbitrary: m) (auto simp: addGame_def Let_def distinct_update)

lemma addGame_keys:
  "fst ` set (foldl (addGame h nss) m gs) = fst ` set m \<union> weekOf h nss ` set gs"
  by (induction gs arbitrary: m) (auto simp: addGame_def Let_def dom_update)

lemma addGame_getOr0:
  "getOr0 (foldl (addGame h nss) m gs) w =
     getOr0 m w + sum_list (map points (filter (\<lambda>g. weekOf h nss g = w) gs))"
  by (induction gs arbitrary: m) (auto simp: addGame_def Let_def getOr0_update)

lemma addGame_total:
  "distinct (map fst m) \<Longrightarrow>
   sum_list (map snd (foldl (addGame h nss) m gs)) = sum_list (map snd m) + sum_list (map points gs)"
proof (induction gs arbitrary: m)
  case Nil
  then show ?case by simp
next
  case (Cons g gs)
  have d: "distinct (map fst (addGame h nss m g))"
    using Cons.prems by (simp add: addGame_def Let_def distinct_update)
  have "sum_list (map snd (addGame h nss m g)) = sum_list (map snd m) + points g"
    using Cons.prems by (simp add: addGame_def Let_def sum_snd_update)
  with Cons.IH[OF d] show ?case by simp
qed

lemma weekNumber_toWeeklyPoints [simp]: "weekNumber (toWeeklyPoints h nss e) = fst e"
  by (simp add: toWeeklyPoints_def split: prod.splits)

lemma weekPoints_toWeeklyPoints [simp]: "weekPoints (toWeeklyPoints h nss e) = snd e"
  by (simp add: toWeeklyPoints_def split: prod.splits)

lemma isInRange_iff:
  "isInRange h p s g =
     (normalized h (DateObj (Some p)) \<le> normalized h (DateStr (date g))
      \<and> (case s of None \<Rightarrow> True
          | Some sd \<Rightarrow> normalized h (DateStr (date g)) < normalized h (DateObj (Some sd))))"
  by (cases s) (simp_all add: isInRange_def Let_def)

lemma cwp_unfold:
  "calculateWeeklyPoints h logs p s ss =
     sort_key weekNumber
       (map (toWeeklyPoints h (normalized h (DateObj (Some ss))))
          (foldl (addGame h (normalized h (DateObj (Some ss)))) []
             (filter (isInRange h p s) logs)))"
  by (simp add: calculateWeeklyPoints_def Let_def sortBy_diff)

lemma cwp_sum:
  "sum_list (map weekPoints (calculateWeeklyPoints h logs p s ss)) =
     sum_list (map points (filter (isInRange h p s) logs))"
proof -
  let ?nss = "normalized h (DateObj (Some ss))"
  let ?m = "foldl (addGame h ?nss) [] (filter (isInRange h p s) logs)"
  have "sum_list (map weekPoints (calculateWeeklyPoints h logs p s ss)) =
          sum_list (map weekPoints (map (toWeeklyPoints h ?nss) ?m))"
    by (simp add: calculateWeeklyPoints_def Let_def sum_list_sortBy)
  also have "\<dots> = sum_list (map snd ?m)"
    by (simp add: comp_def)
  also have "\<dots> = sum_list (map points (filter (isInRange h p s) logs))"
    using addGame_total[of "[]" h ?nss] by simp
  finally show ?thesis .
qed

lemma cwp_set:
  "set (calculateWeeklyPoints h logs p s ss) =
     toWeeklyPoints h (normalized h (DateObj (Some ss))) `
       set (foldl (addGame h (normalized h (DateObj (Some ss)))) []
             (filter (isInRange h p s) logs))"
  by (simp add: calculateWeeklyPoints_def Let_def set_sortBy)

lemma cwp_weeks:
  "weekNumber ` set (calculateWeeklyPoints h logs p s ss) =
     weekOf h (normalized h (DateObj (Some ss))) ` set (filter (isInRange h p s) logs)"
proof -
  let ?nss = "normalized h (DateObj (Some ss))"
  let ?m = "foldl (addGame h ?nss) [] (filter (isInRange h p s) logs)"
  have "weekNumber ` set (calculateWeeklyPoints h logs p s ss) = fst ` set ?m"
    by (simp add: cwp_set image_image)
  also have "\<dots> = weekOf h ?nss ` set (filter (isInRange h p s) logs)"
    using addGame_keys[of h ?nss "[]"] by simp
  finally show ?thesis .
qed

lemma cwp_entry:
  assumes "e \<in> set (calculateWeeklyPoints h logs p s ss)"
  shows "weekPoints e =
           sum_list (map points
             (filter (\<lambda>g. weekOf h (normalized h (DateObj (Some ss))) g = weekNumber e)
                (filter (isInRange h p s) logs)))"
proof -
  let ?nss = "normalized h (DateObj (Some ss))"
  let ?m = "foldl (addGame h ?nss) [] (filter (isInRange h p s) logs)"
  from assms obtain kv where kv: "kv \<in> set ?m" "e = toWeeklyPoints h ?nss kv"
    by (auto simp: cwp_set)
  have d: "distinct (map fst ?m)" by (rule addGame_distinct) simp
  from kv(1) have "(fst kv, snd kv) \<in> set ?m" by simp
  from map_of_getOr0[OF d this] have "getOr0 ?m (fst kv) = snd kv" .
  then show ?thesis
    using addGame_getOr0[of h ?nss "[]" _ "fst kv"] kv(2)
    by (simp add: getOr0_def)
qed

lemma cwp_distinct_sorted:
  "distinct (map weekNumber (calculateWeeklyPoints h logs p s ss))
   \<and> sorted (map weekNumber (calculateWeeklyPoints h logs p s ss))"
proof -
  let ?nss = "normalized h (DateObj (Some ss))"
  let ?m = "foldl (addGame h ?nss) [] (filter (isInRange h p s) logs)"
  have d: "distinct (map fst ?m)" by (rule addGame_distinct) simp
  have "mset (map weekNumber (calculateWeeklyPoints h logs p s ss)) = mset (map fst ?m)"
    by (simp add: cwp_unfold multiset.map_comp comp_def)
  then have "distinct (map weekNumber (calculateWeeklyPoints h logs p s ss))"
    using d by (metis mset_eq_imp_distinct_iff)
  moreover have "sorted (map weekNumber (calculateWeeklyPoints h logs p s ss))"
    by (simp add: cwp_unfold)
  ultimately show ?thesis by simp
qed

text \<open>
  C6. In \<^verbatim>\<open>calculateWeeklyPoints\<close> a game counts exactly when its normalized date is on
  or after the normalized purchase date and, if there is a sale date, before the normalized
  sale date. The result has one entry per week that holds a counting game, in ascending
  week order; the entry's points are the sum of the counting games of that week, so the
  points of the result add up to the points of the counting games; and the result is the
  empty list exactly when no game counts.
\<close>

theorem calculateWeeklyPoints_counts_exactly_in_range:
  "let counts = (\<lambda>g. normalized h (DateObj (Some purchaseDate1)) \<le> normalized h (DateStr (date g))
                    \<and> (case saleDate1 of None \<Rightarrow> True
                        | Some sd \<Rightarrow> normalized h (DateStr (date g)) < normalized h (DateObj (Some sd))));
       week = (\<lambda>g. getWeekNumber h (normalized h (DateStr (date g)))
                      (normalized h (DateObj (Some seasonStart))));
       result = calculateWeeklyPoints h gameLogs purchaseDate1 saleDate1 seasonStart
   in (\<forall>w. (w \<in> weekNumber ` set result) = (\<exists>g\<in>set gameLogs. counts g \<and> week g = w))
    \<and> (\<forall>e\<in>set result.
          weekPoints e = sum_list (map points (filter (\<lambda>g. counts g \<and> week g = weekNumber e) gameLogs)))
    \<and> distinct (map weekNumber result) \<and> sorted (map weekNumber result)
    \<and> sum_list (map weekPoints result) = sum_list (map points (filter counts gameLogs))
    \<and> ((result = []) = (\<forall>g\<in>set gameLogs. \<not> counts g))"
proof -
  let ?counts = "\<lambda>g. normalized h (DateObj (Some purchaseDate1)) \<le> normalized h (DateStr (date g))
                    \<and> (case saleDate1 of None \<Rightarrow> True
                        | Some sd \<Rightarrow> normalized h (DateStr (date g)) < normalized h (DateObj (Some sd)))"
  let ?R = "calculateWeeklyPoints h gameLogs purchaseDate1 saleDate1 seasonStart"
  let ?nss = "normalized h (DateObj (Some seasonStart))"
  have c: "isInRange h purchaseDate1 saleDate1 = ?counts"
    by (rule ext) (rule isInRange_iff)
  have 1: "\<forall>w. (w \<in> weekNumber ` set ?R) = (\<exists>g\<in>set gameLogs. ?counts g \<and> weekOf h ?nss g = w)"
    unfolding cwp_weeks c by auto
  have 2: "\<forall>e\<in>set ?R. weekPoints e =
             sum_list (map points (filter (\<lambda>g. ?counts g \<and> weekOf h ?nss g = weekNumber e) gameLogs))"
  proof
    fix e assume "e \<in> set ?R"
    from cwp_entry[OF this] show "weekPoints e =
             sum_list (map points (filter (\<lambda>g. ?counts g \<and> weekOf h ?nss g = weekNumber e) gameLogs))"
      unfolding c by (simp add: conj_commute)
  qed
  have 3: "distinct (map weekNumber ?R) \<and> sorted (map weekNumber ?R)"
    by (rule cwp_distinct_sorted)
  have 4: "sum_list (map weekPoints ?R) = sum_list (map points (filter ?counts gameLogs))"
    unfolding cwp_sum c ..
  have "(?R = []) = (weekNumber ` set ?R = {})" by simp
  also have "\<dots> = (\<forall>g\<in>set gameLogs. \<not> ?counts g)"
    unfolding cwp_weeks c by (auto simp: filter_empty_conv)
  finally have 5: "(?R = []) = (\<forall>g\<in>set gameLogs. \<not> ?counts g)" .
  from 1 2 3 4 5 show ?thesis unfolding Let_def by blast
qed


lemma calculateWeeklyPoints_gamesA:
  "calculateWeeklyPoints utcHost gamesA purchaseA None defaultSeasonStart =
     [\<lparr>weekNumber = 2, weekStartDate = 1730073600000, weekEndDate = 1730678399999,
       weekPoints = 20\<rparr>,
      \<lparr>weekNumber = 4, weekStartDate = 1731283200000, weekEndDate = 1731887999999,
       weekPoints = 7\<rparr>]"
  by code_simp

theorem calculateWeeklyPoints_counts_exactly_in_range_witness:
  "sum_list (map points
     (filter (\<lambda>g. normalized utcHost (DateObj (Some purchaseA))
                     \<le> normalized utcHost (DateStr (date g))) gamesA)) = 27
   \<and> calculateWeeklyPoints utcHost gamesA purchaseA None defaultSeasonStart \<noteq> []
   \<and> (\<exists>g\<in>set gamesA. normalized utcHost (DateObj (Some purchaseA))
                          \<le> normalized utcHost (DateStr (date g)))"
  using calculateWeeklyPoints_counts_exactly_in_range
          [of utcHost purchaseA None defaultSeasonStart gamesA]
  by (simp add: Let_def calculateWeeklyPoints_gamesA)

subsection \<open>Ownership Interval Reconstructor\<close>

lemma sellAndBuy_first_open:
  "findIndex (isOpenFor su st) hs = Some i \<Longrightarrow>
   sellAndBuy su st bu bt d hs =
     hs[i := (hs ! i)\<lparr>saleDate := Some d\<rparr>]
       @ [\<lparr>userId = bu, teamId = bt, purchaseDate = d, saleDate = None\<rparr>]"
  by (simp add: sellAndBuy_def)

lemma sellAndBuy_no_open:
  "findIndex (isOpenFor su st) hs = None \<Longrightarrow>
   sellAndBuy su st bu bt d hs =
     hs @ [\<lparr>userId = bu, teamId = bt, purchaseDate = d, saleDate = None\<rparr>]"
  by (simp add: sellAndBuy_def)

lemma historyOf_update:
  "historyOf (AList.update k v m) k' = (if k' = k then v else historyOf m k')"
  by (simp add: historyOf_def update_conv')

text \<open>
  C5, as claimed: a transaction closes the seller's most recent still-open period. The
  code takes the period \<^verbatim>\<open>find\<close> returns, the first open one in the history. When team B holds
  two open periods of player 7 (bought at 100 and at 200) and sells at 300, the period
  bought at 100 is closed and the most recent one, bought at 200, stays open.
\<close>

theorem seller_oldest_open_period_is_closed:
  "historyOf (foldl processTransaction [] [txAB, txCB]) 7 =
     [\<lparr>userId = ''uB'', teamId = ''tB'', purchaseDate = 100, saleDate = None\<rparr>,
      \<lparr>userId = ''uB'', teamId = ''tB'', purchaseDate = 200, saleDate = None\<rparr>]
   \<and> historyOf (foldl processTransaction [] [txAB, txCB, txBD]) 7 =
     [\<lparr>userId = ''uB'', teamId = ''tB'', purchaseDate = 100, saleDate = Some 300\<rparr>,
      \<lparr>userId = ''uB'', teamId = ''tB'', purchaseDate = 200, saleDate = None\<rparr>,
      \<lparr>userId = ''uD'', teamId = ''tD'', purchaseDate = 300, saleDate = None\<rparr>]"
  by code_simp

lemma rosterPeriod_cases:
  assumes u: "pot_user_id row = Some u" "u \<noteq> []"
  shows "let hs = historyOf m (pot_player_id row);
             isMine = isOpenFor u (pot_team_id row);
             own = (case pot_purchased_at row of Some t \<Rightarrow> t | None \<Rightarrow> pot_created_at row)
         in ((\<forall>p\<in>set hs. \<not> isMine p) \<longrightarrow>
               rosterPeriod m row =
                 Some \<lparr>userId = u, teamId = pot_team_id row, purchaseDate = own, saleDate = None,
                       playerId = pot_player_id row, playerName = pot_player_name row\<rparr>)
          \<and> ((\<exists>p\<in>set hs. isMine p) \<longrightarrow>
               (\<exists>i<length hs. isMine (hs ! i) \<and> (\<forall>j<i. \<not> isMine (hs ! j))
                  \<and> rosterPeriod m row =
                      Some \<lparr>userId = u, teamId = pot_team_id row,
                            purchaseDate = purchaseDate (hs ! i), saleDate = None,
                            playerId = pot_player_id row, playerName = pot_player_name row\<rparr>))"
proof -
  define hs where "hs = historyOf m (pot_player_id row)"
  define isMine where "isMine = isOpenFor u (pot_team_id row)"
  define own where "own = (case pot_purchased_at row of Some t \<Rightarrow> t | None \<Rightarrow> pot_created_at row)"
  have truthy: "\<not> falsy (pot_user_id row)" using u by (simp add: falsy_def)
  have rp: "rosterPeriod m row =
      Some \<lparr>userId = u, teamId = pot_team_id row,
            purchaseDate = (case findIndex isMine hs of Some i \<Rightarrow> purchaseDate (hs ! i) | None \<Rightarrow> own),
            saleDate = None,
            playerId = pot_player_id row, playerName = pot_player_name row\<rparr>"
    using truthy u
    by (simp add: rosterPeriod_def Let_def find_findIndex hs_def isMine_def own_def
             split: option.splits)
  have none: "(\<forall>p\<in>set hs. \<not> isMine p) \<longrightarrow>
               rosterPeriod m row =
                 Some \<lparr>userId = u, teamId = pot_team_id row, purchaseDate = own, saleDate = None,
                       playerId = pot_player_id row, playerName = pot_player_name row\<rparr>"
    by (simp add: rp flip: findIndex_None)
  have some: "(\<exists>p\<in>set hs. isMine p) \<longrightarrow>
               (\<exists>i<length hs. isMine (hs ! i) \<and> (\<forall>j<i. \<not> isMine (hs ! j))
                  \<and> rosterPeriod m row =
                      Some \<lparr>userId = u, teamId = pot_team_id row,
                            purchaseDate = purchaseDate (hs ! i), saleDate = None,
                            playerId = pot_player_id row, playerName = pot_player_name row\<rparr>)"
  proof
    assume "\<exists>p\<in>set hs. isMine p"
    then have "findIndex isMine hs \<noteq> None" by (simp add: findIndex_None)
    then obtain i where i: "findIndex isMine hs = Some i" by auto
    from findIndex_Some[OF i] show "\<exists>i<length hs. isMine (hs ! i) \<and> (\<forall>j<i. \<not> isMine (hs ! j))
                  \<and> rosterPeriod m row =
                      Some \<lparr>userId = u, teamId = pot_team_id row,
                            purchaseDate = purchaseDate (hs ! i), saleDate = None,
                            playerId = pot_player_id row, playerName = pot_player_name row\<rparr>"
      by (auto simp: rp i)
  qed
  from none some show ?thesis
    unfolding Let_def hs_def[symmetric] isMine_def[symmetric] own_def[symmetric] by blast
qed

lemma processTransaction_cases:
  assumes ok: "tx_buyer_user_id tx = Some bu" "bu \<noteq> []" "tx_seller_user_id tx = Some su" "su \<noteq> []"
  shows "let hs = historyOf m (tx_player_id tx);
             hs' = historyOf (processTransaction m tx) (tx_player_id tx);
             isSeller = isOpenFor su (tx_seller_team_id tx);
             bought = \<lparr>userId = bu, teamId = tx_buyer_team_id tx,
                       purchaseDate = tx_created_at tx, saleDate = None\<rparr>
         in ((\<forall>p\<in>set hs. \<not> isSeller p) \<longrightarrow> hs' = hs @ [bought])
          \<and> ((\<exists>p\<in>set hs. isSeller p) \<longrightarrow>
               (\<exists>i<length hs. isSeller (hs ! i) \<and> (\<forall>j<i. \<not> isSeller (hs ! j))
                  \<and> hs' = hs[i := (hs ! i)\<lparr>saleDate := Some (tx_created_at tx)\<rparr>] @ [bought]))
          \<and> (\<forall>q. q \<noteq> tx_player_id tx \<longrightarrow>
                 historyOf (processTransaction m tx) q = historyOf m q)"
proof -
  define hs where "hs = historyOf m (tx_player_id tx)"
  define hs' where "hs' = historyOf (processTransaction m tx) (tx_player_id tx)"
  define isSeller where "isSeller = isOpenFor su (tx_seller_team_id tx)"
  define bought where "bought = \<lparr>userId = bu, teamId = tx_buyer_team_id tx,
                       purchaseDate = tx_created_at tx, saleDate = None\<rparr>"
  have truthy: "\<not> falsy (tx_buyer_user_id tx)" "\<not> falsy (tx_seller_user_id tx)"
    using ok by (simp_all add: falsy_def)
  have hs': "hs' = sellAndBuy su (tx_seller_team_id tx) bu (tx_buyer_team_id tx)
                     (tx_created_at tx) hs"
    using truthy ok by (simp add: hs'_def hs_def processTransaction_def Let_def historyOf_update)
  have other: "\<forall>q. q \<noteq> tx_player_id tx \<longrightarrow>
                 historyOf (processTransaction m tx) q = historyOf m q"
    using truthy by (simp add: processTransaction_def Let_def historyOf_update)
  have none: "(\<forall>p\<in>set hs. \<not> isSeller p) \<longrightarrow> hs' = hs @ [bought]"
    using sellAndBuy_no_open[of su "tx_seller_team_id tx" hs]
    by (simp add: hs' findIndex_None isSeller_def bought_def)
  have some: "(\<exists>p\<in>set hs. isSeller p) \<longrightarrow>
            (\<exists>i<length hs. isSeller (hs ! i) \<and> (\<forall>j<i. \<not> isSeller (hs ! j))
               \<and> hs' = hs[i := (hs ! i)\<lparr>saleDate := Some (tx_created_at tx)\<rparr>] @ [bought])"
  proof
    assume "\<exists>p\<in>set hs. isSeller p"
    then have "findIndex isSeller hs \<noteq> None" by (simp add: findIndex_None)
    then obtain i where i: "findIndex isSeller hs = Some i" by auto
    from findIndex_Some[OF i] sellAndBuy_first_open[OF i[unfolded isSeller_def]]
    show "\<exists>i<length hs. isSeller (hs ! i) \<and> (\<forall>j<i. \<not> isSeller (hs ! j))
               \<and> hs' = hs[i := (hs ! i)\<lparr>saleDate := Some (tx_created_at tx)\<rparr>] @ [bought]"
      unfolding hs' bought_def isSeller_def by blast
  qed
  from none some other show ?thesis
    unfolding Let_def hs_def[symmetric] hs'_def[symmetric] isSeller_def[symmetric]
      bought_def[symmetric] by blast
qed

text \<open>
  C5, amended. A transaction whose buyer and seller users are known closes the first
  still-open period of the seller (same user and team) in the player's history, setting
  its sale date to the transaction's \<^verbatim>\<open>created_at\<close>, and appends an open period of the
  buyer that starts at \<^verbatim>\<open>created_at\<close>; with no open period of the seller only the buyer's
  period is appended; the histories of other players are untouched. A roster row whose
  user is known gives an open period that starts at the purchase date of the first open
  period of that user and team in the player's history, if there is one, and otherwise at
  the row's \<^verbatim>\<open>purchased_at\<close> (its \<^verbatim>\<open>created_at\<close> when that is absent).
\<close>

theorem reconstruction_closes_first_open_and_reuses_start:
  assumes "tx_buyer_user_id tx = Some bu" "bu \<noteq> []" "tx_seller_user_id tx = Some su" "su \<noteq> []"
      and "pot_user_id row = Some u" "u \<noteq> []"
  shows "(let hs = historyOf m (tx_player_id tx);
             hs' = historyOf (processTransaction m tx) (tx_player_id tx);
             isSeller = isOpenFor su (tx_seller_team_id tx);
             bought = \<lparr>userId = bu, teamId = tx_buyer_team_id tx,
                       purchaseDate = tx_created_at tx, saleDate = None\<rparr>
         in ((\<forall>p\<in>set hs. \<not> isSeller p) \<longrightarrow> hs' = hs @ [bought])
          \<and> ((\<exists>p\<in>set hs. isSeller p) \<longrightarrow>
               (\<exists>i<length hs. isSeller (hs ! i) \<and> (\<forall>j<i. \<not> isSeller (hs ! j))
                  \<and> hs' = hs[i := (hs ! i)\<lparr>saleDate := Some (tx_created_at tx)\<rparr>] @ [bought]))
          \<and> (\<forall>q. q \<noteq> tx_player_id tx \<longrightarrow>
                 historyOf (processTransaction m tx) q = historyOf m q))
       \<and> (let hs = historyOf m (pot_player_id row);
             isMine = isOpenFor u (pot_team_id row);
             own = (case pot_purchased_at row of Some t \<Rightarrow> t | None \<Rightarrow> pot_created_at row)
         in ((\<forall>p\<in>set hs. \<not> isMine p) \<longrightarrow>
               rosterPeriod m row =
                 Some \<lparr>userId = u, teamId = pot_team_id row, purchaseDate = own, saleDate = None,
                       playerId = pot_player_id row, playerName = pot_player_name row\<rparr>)
          \<and> ((\<exists>p\<in>set hs. isMine p) \<longrightarrow>
               (\<exists>i<length hs. isMine (hs ! i) \<and> (\<forall>j<i. \<not> isMine (hs ! j))
                  \<and> rosterPeriod m row =
                      Some \<lparr>userId = u, teamId = pot_team_id row,
                            purchaseDate = purchaseDate (hs ! i), saleDate = None,
                            playerId = pot_player_id row, playerName = pot_player_name row\<rparr>)))"
  using processTransaction_cases[OF assms(1-4), of m] rosterPeriod_cases[OF assms(5,6), of m]
  by blast

lemma history_after_two_purchases: "foldl processTransaction [] [txAB, txCB] = [(7, [\<lparr>userId = ''uB'', teamId = ''tB'', purchaseDate = 100, saleDate = None\<rparr>,
      \<lparr>userId = ''uB'', teamId = ''tB'', purchaseDate = 200, saleDate = None\<rparr>])]"
  by code_simp

theorem reconstruction_closes_first_open_and_reuses_start_witness:
  "historyOf (processTransaction (foldl processTransaction [] [txAB, txCB]) txBD) 7 =
     [\<lparr>userId = ''uB'', teamId = ''tB'', purchaseDate = 100, saleDate = Some 300\<rparr>,
      \<lparr>userId = ''uB'', teamId = ''tB'', purchaseDate = 200, saleDate = None\<rparr>,
      \<lparr>userId = ''uD'', teamId = ''tD'', purchaseDate = 300, saleDate = None\<rparr>]
   \<and> rosterPeriod (foldl processTransaction [] [txAB, txCB]) rowB =
       Some \<lparr>userId = ''uB'', teamId = ''tB'', purchaseDate = 100, saleDate = None,
             playerId = 7, playerName = ''P7''\<rparr>
   \<and> rosterPeriod (foldl processTransaction [] [txAB, txCB]) rowD =
       Some \<lparr>userId = ''uD'', teamId = ''tD'', purchaseDate = 50, saleDate = None,
             playerId = 7, playerName = ''P7''\<rparr>"
  using reconstruction_closes_first_open_and_reuses_start
          [of txBD "''uD''" "''uB''" rowB "''uB''" "foldl processTransaction [] [txAB, txCB]"]
        reconstruction_closes_first_open_and_reuses_start
          [of txBD "''uD''" "''uB''" rowD "''uD''" "foldl processTransaction [] [txAB, txCB]"]
  unfolding history_after_two_purchases
  by (simp add: txBD_def rowB_def rowD_def historyOf_def isOpenFor_def Let_def
        processTransaction_def falsy_def sellAndBuy_def rosterPeriod_def)



subsection \<open>Ranking Calculator\<close>


lemma update_new: "k \<notin> fst ` set m \<Longrightarrow> AList.update k v m = m @ [(k, v)]"
  by (induction m) auto

lemma update_existing:
  "distinct (map fst m) \<Longrightarrow> k \<in> fst ` set m \<Longrightarrow>
   AList.update k v m = map (\<lambda>e. if fst e = k then (k, v) else e) m"
proof (induction m)
  case Nil
  then show ?case by simp
next
  case (Cons a m)
  show ?case
  proof (cases "fst a = k")
    case True
    from Cons.prems(1) have "fst a \<notin> fst ` set m" by simp
    with True have "\<forall>e\<in>set m. fst e \<noteq> k" by (metis imageI)
    then have "map (\<lambda>e. if fst e = k then (k, v) else e) m = m"
      by (induction m) auto
    with True show ?thesis by (cases a) simp
  next
    case False
    with Cons show ?thesis by (cases a) auto
  qed
qed

lemma set_update_subset: "set (AList.update k v m) \<subseteq> insert (k, v) (set m)"
  by (induction m) auto

text \<open>The rankings map after initialisation.\<close>

lemma initRanking_keys:
  "fst ` set (foldl initRanking m teams) = fst ` set m \<union> ut_user_id ` set teams"
  by (induction teams arbitrary: m) (auto simp: initRanking_def dom_update)

lemma initRanking_distinct:
  "distinct (map fst m) \<Longrightarrow> distinct (map fst (foldl initRanking m teams))"
  by (induction teams arbitrary: m) (auto simp: initRanking_def distinct_update)

lemma initRanking_values:
  "\<forall>e\<in>set m. P (snd e) \<Longrightarrow> \<forall>t\<in>set teams. P (zeroRanking t) \<Longrightarrow>
   \<forall>e\<in>set (foldl initRanking m teams). P (snd e)"
proof (induction teams arbitrary: m)
  case Nil
  then show ?case by simp
next
  case (Cons t teams)
  have "\<forall>e\<in>set (initRanking m t). P (snd e)"
    using set_update_subset[of "ut_user_id t" "zeroRanking t" m] Cons.prems
    by (auto simp: initRanking_def)
  with Cons show ?case by simp
qed

lemma initRanking_keyed:
  "\<forall>e\<in>set m. rankUserId (snd e) = fst e \<Longrightarrow>
   \<forall>e\<in>set (foldl initRanking m teams). rankUserId (snd e) = fst e"
proof (induction teams arbitrary: m)
  case Nil
  then show ?case by simp
next
  case (Cons t teams)
  have "\<forall>e\<in>set (initRanking m t). rankUserId (snd e) = fst e"
    using set_update_subset[of "ut_user_id t" "zeroRanking t" m] Cons.prems
    by (auto simp: initRanking_def)
  with Cons show ?case by simp
qed

lemma initRanking_distinct_users:
  "distinct (map ut_user_id teams) \<Longrightarrow> ut_user_id ` set teams \<inter> fst ` set m = {} \<Longrightarrow>
   foldl initRanking m teams = m @ map (\<lambda>t. (ut_user_id t, zeroRanking t)) teams"
proof (induction teams arbitrary: m)
  case Nil
  then show ?case by simp
next
  case (Cons t teams)
  have new: "ut_user_id t \<notin> fst ` set m" using Cons.prems(2) by auto
  have step: "initRanking m t = m @ [(ut_user_id t, zeroRanking t)]"
    by (simp add: initRanking_def update_new[OF new])
  have "ut_user_id ` set teams \<inter> fst ` set (initRanking m t) = {}"
    using Cons.prems by (auto simp: step)
  with Cons.IH[of "initRanking m t"] Cons.prems(1) show ?case
    by (simp add: step)
qed

text \<open>One week, and a list of weeks, added to a ranking.\<close>

lemma addWeekly_fields:
  "rankUserId (foldl addWeekly r ws) = rankUserId r
   \<and> rankTeamId (foldl addWeekly r ws) = rankTeamId r
   \<and> teamName (foldl addWeekly r ws) = teamName r"
  by (induction ws arbitrary: r) (auto simp: addWeekly_def Let_def)

lemma addWeekly_total:
  "totalPoints (foldl addWeekly r ws) = totalPoints r + sum_list (map weekPoints ws)"
  by (induction ws arbitrary: r) (auto simp: addWeekly_def Let_def)

lemma addWeekly_breakdown:
  "distinct (map fst (weeklyBreakdown r)) \<Longrightarrow>
   distinct (map fst (weeklyBreakdown (foldl addWeekly r ws)))
   \<and> sum_list (map snd (weeklyBreakdown (foldl addWeekly r ws))) =
       sum_list (map snd (weeklyBreakdown r)) + sum_list (map weekPoints ws)"
proof (induction ws arbitrary: r)
  case Nil
  then show ?case by simp
next
  case (Cons w ws)
  have d: "distinct (map fst (weeklyBreakdown (addWeekly r w)))"
    using Cons.prems by (simp add: addWeekly_def Let_def distinct_update)
  have s: "sum_list (map snd (weeklyBreakdown (addWeekly r w))) =
             sum_list (map snd (weeklyBreakdown r)) + weekPoints w"
    using Cons.prems by (simp add: addWeekly_def Let_def sum_snd_update)
  from Cons.IH[OF d] s show ?case by simp
qed

lemma addWeekly_Nil [simp]: "foldl addWeekly r [] = r"
  by simp


text \<open>One ownership period processed, when the map has a ranking for its user.\<close>

lemma processPeriod_known:
  assumes "userId p \<in> fst ` set M"
  shows "\<exists>r. map_of M (userId p) = Some r
           \<and> processPeriod h teams logs M p =
               AList.update (userId p) (foldl addWeekly r (periodWeeks h logs p)) M"
proof -
  from assms obtain r where r: "map_of M (userId p) = Some r"
    by (metis domD dom_map_of_conv_image_fst)
  then show ?thesis by (simp add: processPeriod_def Let_def)
qed

lemma map_update_same:
  "map_of m k = Some r \<Longrightarrow> g v = g r \<Longrightarrow>
   map (\<lambda>e. (fst e, g (snd e))) (AList.update k v m) = map (\<lambda>e. (fst e, g (snd e))) m"
proof (induction m)
  case Nil
  then show ?case by simp
next
  case (Cons a m)
  then show ?case by (cases a) (auto split: if_splits)
qed

lemma sum_update_existing:
  "distinct (map fst m) \<Longrightarrow> map_of m k = Some r \<Longrightarrow>
   sum_list (map (\<lambda>e. f (snd e)) (AList.update k v m)) =
     sum_list (map (\<lambda>e. f (snd e)) m) - f r + (f v :: int)"
proof (induction m)
  case Nil
  then show ?case by simp
next
  case (Cons a m)
  show ?case
  proof (cases "fst a = k")
    case True
    with Cons.prems show ?thesis by (cases a) simp
  next
    case False
    with Cons show ?thesis by (cases a) simp
  qed
qed

lemma processPeriod_keys:
  "userId p \<in> fst ` set M \<Longrightarrow> map fst (processPeriod h teams logs M p) = map fst M"
proof -
  assume a: "userId p \<in> fst ` set M"
  from processPeriod_known[OF a, of h teams logs] obtain r where
    r: "processPeriod h teams logs M p =
          AList.update (userId p) (foldl addWeekly r (periodWeeks h logs p)) M"
    by blast
  from a have "userId p \<in> set (map fst M)" by simp
  then show ?thesis unfolding r update_keys by simp
qed

lemma processPeriod_shape:
  assumes "userId p \<in> fst ` set M"
  shows "map (\<lambda>e. (fst e, shape (snd e))) (processPeriod h teams logs M p) =
         map (\<lambda>e. (fst e, shape (snd e))) M"
proof -
  from processPeriod_known[OF assms, of h teams logs] obtain r where
    r: "map_of M (userId p) = Some r"
       "processPeriod h teams logs M p =
          AList.update (userId p) (foldl addWeekly r (periodWeeks h logs p)) M"
    by blast
  have "shape (foldl addWeekly r (periodWeeks h logs p)) = shape r"
    by (simp add: shape_def addWeekly_fields)
  from map_update_same[OF r(1), of shape, OF this] show ?thesis by (simp add: r(2))
qed

lemma processPeriod_other:
  "k \<noteq> userId p \<Longrightarrow> map_of (processPeriod h teams logs M p) k = map_of M k"
  by (auto simp: processPeriod_def Let_def update_conv' split: option.splits)

lemma processPeriod_sum:
  assumes "distinct (map fst M)" "userId p \<in> fst ` set M"
  shows "sum_list (map (\<lambda>e. totalPoints (snd e)) (processPeriod h teams logs M p)) =
         sum_list (map (\<lambda>e. totalPoints (snd e)) M)
           + sum_list (map weekPoints (periodWeeks h logs p))"
proof -
  from processPeriod_known[OF assms(2), of h teams logs] obtain r where
    r: "map_of M (userId p) = Some r"
       "processPeriod h teams logs M p =
          AList.update (userId p) (foldl addWeekly r (periodWeeks h logs p)) M"
    by blast
  show ?thesis
    unfolding r(2) sum_update_existing[OF assms(1) r(1), of totalPoints]
    by (simp add: addWeekly_total)
qed

lemma balanced_addWeekly: "balanced r \<Longrightarrow> balanced (foldl addWeekly r ws)"
  using addWeekly_breakdown[of r ws] by (simp add: balanced_def addWeekly_total)

lemma processPeriod_balanced:
  assumes "\<forall>e\<in>set M. balanced (snd e)"
  shows "\<forall>e\<in>set (processPeriod h teams logs M p). balanced (snd e)"
proof (cases "map_of M (userId p)")
  case None
  show ?thesis
  proof (cases "find (\<lambda>t. ut_id t = teamId p) teams")
    case None
    with \<open>map_of M (userId p) = None\<close> assms show ?thesis
      by (simp add: processPeriod_def Let_def)
  next
    case (Some team)
    let ?r0 = "\<lparr>rankUserId = userId p, rankTeamId = teamId p, teamName = ut_team_name team,
                 totalPoints = 0, weeklyBreakdown = []\<rparr>"
    have b: "balanced (foldl addWeekly ?r0 (periodWeeks h logs p))"
      by (rule balanced_addWeekly) (simp add: balanced_def)
    have "processPeriod h teams logs M p =
            AList.update (userId p) (foldl addWeekly ?r0 (periodWeeks h logs p)) M"
      using Some \<open>map_of M (userId p) = None\<close> by (simp add: processPeriod_def Let_def)
    with set_update_subset[of "userId p" "foldl addWeekly ?r0 (periodWeeks h logs p)" M] assms b
    show ?thesis by auto
  qed
next
  case (Some r)
  then have "(userId p, r) \<in> set M" by (rule map_of_SomeD)
  with assms have "balanced r" by auto
  then have b: "balanced (foldl addWeekly r (periodWeeks h logs p))"
    by (rule balanced_addWeekly)
  have "processPeriod h teams logs M p =
          AList.update (userId p) (foldl addWeekly r (periodWeeks h logs p)) M"
    using Some by (simp add: processPeriod_def Let_def)
  with set_update_subset[of "userId p" "foldl addWeekly r (periodWeeks h logs p)" M] assms b
  show ?thesis by auto
qed

text \<open>The loop over all ownership periods.\<close>

lemma periods_keys:
  "\<forall>p\<in>set ps. userId p \<in> fst ` set M \<Longrightarrow>
   map fst (foldl (processPeriod h teams logs) M ps) = map fst M"
proof (induction ps arbitrary: M)
  case Nil
  then show ?case by simp
next
  case (Cons p ps)
  have k: "map fst (processPeriod h teams logs M p) = map fst M"
    using Cons.prems by (simp add: processPeriod_keys)
  then have "fst ` set (processPeriod h teams logs M p) = fst ` set M"
    by (metis list.set_map)
  with Cons.prems have "\<forall>q\<in>set ps. userId q \<in> fst ` set (processPeriod h teams logs M p)"
    by simp
  from Cons.IH[OF this] k show ?case by simp
qed

lemma periods_shape:
  "\<forall>p\<in>set ps. userId p \<in> fst ` set M \<Longrightarrow>
   map (\<lambda>e. (fst e, shape (snd e))) (foldl (processPeriod h teams logs) M ps) =
   map (\<lambda>e. (fst e, shape (snd e))) M"
proof (induction ps arbitrary: M)
  case Nil
  then show ?case by simp
next
  case (Cons p ps)
  have k: "map fst (processPeriod h teams logs M p) = map fst M"
    using Cons.prems by (simp add: processPeriod_keys)
  then have "fst ` set (processPeriod h teams logs M p) = fst ` set M"
    by (metis list.set_map)
  with Cons.prems have "\<forall>q\<in>set ps. userId q \<in> fst ` set (processPeriod h teams logs M p)"
    by simp
  from Cons.IH[OF this] processPeriod_shape[of p M h teams logs] Cons.prems
  show ?case by simp
qed

lemma periods_other:
  "k \<notin> userId ` set ps \<Longrightarrow> map_of (foldl (processPeriod h teams logs) M ps) k = map_of M k"
  by (induction ps arbitrary: M) (auto simp: processPeriod_other)

lemma periods_balanced:
  "\<forall>e\<in>set M. balanced (snd e) \<Longrightarrow>
   \<forall>e\<in>set (foldl (processPeriod h teams logs) M ps). balanced (snd e)"
proof (induction ps arbitrary: M)
  case Nil
  then show ?case by simp
next
  case (Cons p ps)
  from Cons.IH[OF processPeriod_balanced[OF Cons.prems, of h teams logs p]]
  show ?case by simp
qed

lemma periods_sum:
  "distinct (map fst M) \<Longrightarrow> \<forall>p\<in>set ps. userId p \<in> fst ` set M \<Longrightarrow>
   sum_list (map (\<lambda>e. totalPoints (snd e)) (foldl (processPeriod h teams logs) M ps)) =
   sum_list (map (\<lambda>e. totalPoints (snd e)) M)
     + sum_list (map (\<lambda>p. sum_list (map weekPoints (periodWeeks h logs p))) ps)"
proof (induction ps arbitrary: M)
  case Nil
  then show ?case by simp
next
  case (Cons p ps)
  have k: "map fst (processPeriod h teams logs M p) = map fst M"
    using Cons.prems by (simp add: processPeriod_keys)
  then have ks: "fst ` set (processPeriod h teams logs M p) = fst ` set M"
    by (metis list.set_map)
  have d: "distinct (map fst (processPeriod h teams logs M p))"
    using k Cons.prems(1) by simp
  have a: "\<forall>q\<in>set ps. userId q \<in> fst ` set (processPeriod h teams logs M p)"
    using ks Cons.prems(2) by simp
  from Cons.IH[OF d a] processPeriod_sum[of M p h teams logs] Cons.prems
  show ?case by simp
qed



text \<open>Where the user of a period comes from: a roster row or the buyer of a
  transaction.\<close>

lemma sellAndBuy_users:
  "userId ` set (sellAndBuy su st bu bt d hs) \<subseteq> insert bu (userId ` set hs)"
proof (cases "findIndex (isOpenFor su st) hs")
  case None
  then show ?thesis by (auto simp: sellAndBuy_no_open)
next
  case (Some i)
  from findIndex_Some[OF Some] have i: "i < length hs" by simp
  have "userId ` set (hs[i := (hs ! i)\<lparr>saleDate := Some d\<rparr>]) \<subseteq> userId ` set hs"
  proof
    fix u assume "u \<in> userId ` set (hs[i := (hs ! i)\<lparr>saleDate := Some d\<rparr>])"
    then obtain y where y: "y \<in> set (hs[i := (hs ! i)\<lparr>saleDate := Some d\<rparr>])" "u = userId y"
      by auto
    from y(1) set_update_subset_insert[of hs i "(hs ! i)\<lparr>saleDate := Some d\<rparr>"]
    have "y = (hs ! i)\<lparr>saleDate := Some d\<rparr> \<or> y \<in> set hs" by auto
    then show "u \<in> userId ` set hs"
    proof
      assume "y = (hs ! i)\<lparr>saleDate := Some d\<rparr>"
      then have "u = userId (hs ! i)" using y(2) by simp
      with i show ?thesis by simp
    next
      assume "y \<in> set hs"
      with y(2) show ?thesis by simp
    qed
  qed
  then show ?thesis by (auto simp: sellAndBuy_first_open[OF Some])
qed

lemma historyOf_mem: "(k, hs) \<in> set M \<Longrightarrow> distinct (map fst M) \<Longrightarrow> historyOf M k = hs"
  by (simp add: historyOf_def)

lemma historyOf_in:
  "x \<in> set (historyOf M k) \<Longrightarrow> \<exists>hs. (k, hs) \<in> set M \<and> x \<in> set hs"
proof (cases "map_of M k")
  case None
  assume "x \<in> set (historyOf M k)"
  with None show ?thesis by (simp add: historyOf_def)
next
  case (Some hs)
  assume "x \<in> set (historyOf M k)"
  with Some have "x \<in> set hs" by (simp add: historyOf_def)
  with map_of_SomeD[OF Some] show ?thesis by blast
qed

lemma processTransaction_users:
  assumes "\<forall>e\<in>set M. \<forall>x\<in>set (snd e). boughtBy txs (userId x)" "tx \<in> set txs"
  shows "\<forall>e\<in>set (processTransaction M tx). \<forall>x\<in>set (snd e). boughtBy txs (userId x)"
proof (cases "falsy (tx_buyer_user_id tx) \<or> falsy (tx_seller_user_id tx)")
  case True
  then have "processTransaction M tx = M" by (simp add: processTransaction_def)
  with assms(1) show ?thesis by simp
next
  case False
  then obtain bu where bu: "tx_buyer_user_id tx = Some bu" by (auto simp: falsy_def)
  define hs where "hs = historyOf M (tx_player_id tx)"
  define new where "new = sellAndBuy (the (tx_seller_user_id tx)) (tx_seller_team_id tx) bu
                (tx_buyer_team_id tx) (tx_created_at tx) hs"
  have pt: "processTransaction M tx = AList.update (tx_player_id tx) new M"
    using False bu by (simp add: processTransaction_def Let_def new_def hs_def)
  have old: "boughtBy txs (userId x)" if "x \<in> set hs" for x
  proof -
    from historyOf_in[OF that[unfolded hs_def]] obtain ys where
      ys: "(tx_player_id tx, ys) \<in> set M" "x \<in> set ys" by blast
    from assms(1) ys(1) have "\<forall>x\<in>set (snd (tx_player_id tx, ys)). boughtBy txs (userId x)"
      by (rule bspec)
    with ys(2) show ?thesis by simp
  qed
  have b: "boughtBy txs bu" using assms(2) bu unfolding boughtBy_def by (rule_tac x = tx in bexI)
  have new: "boughtBy txs (userId x)" if "x \<in> set new" for x
  proof -
    from that have "userId x \<in> userId ` set new" by (rule imageI)
    moreover have "userId ` set new \<subseteq> insert bu (userId ` set hs)"
      unfolding new_def by (rule sellAndBuy_users)
    ultimately have "userId x \<in> insert bu (userId ` set hs)" by (rule rev_subsetD)
    then have "userId x = bu \<or> (\<exists>y\<in>set hs. userId x = userId y)" by auto
    with b old show ?thesis by metis
  qed
  show ?thesis
  proof (intro ballI)
    fix e x assume e: "e \<in> set (processTransaction M tx)" and x: "x \<in> set (snd e)"
    from e have "e \<in> insert (tx_player_id tx, new) (set M)"
      unfolding pt using set_update_subset[of "tx_player_id tx" new M] by (rule rev_subsetD)
    then have "e = (tx_player_id tx, new) \<or> e \<in> set M" by simp
    then show "boughtBy txs (userId x)"
    proof
      assume "e = (tx_player_id tx, new)"
      with x new show ?thesis by simp
    next
      assume "e \<in> set M"
      with assms(1) x show ?thesis by (metis)
    qed
  qed
qed

lemma transactions_users:
  "\<forall>e\<in>set M. \<forall>x\<in>set (snd e). boughtBy txs (userId x) \<Longrightarrow> set xs \<subseteq> set txs \<Longrightarrow>
   \<forall>e\<in>set (foldl processTransaction M xs). \<forall>x\<in>set (snd e). boughtBy txs (userId x)"
proof (induction xs arbitrary: M)
  case Nil
  then show ?case by simp
next
  case (Cons tx xs)
  have "tx \<in> set txs" "set xs \<subseteq> set txs" using Cons.prems(2) by auto
  from Cons.IH[OF processTransaction_users[OF Cons.prems(1) this(1)] this(2)]
  show ?case by simp
qed

lemma set_map_filter: "set (List.map_filter f xs) = {y. \<exists>x\<in>set xs. f x = Some y}"
  by (induction xs) (auto simp: List.map_filter_simps split: option.splits)

lemma rosterPeriod_user:
  "rosterPeriod M row = Some p \<Longrightarrow> pot_user_id row = Some (userId p)"
  by (auto simp: rosterPeriod_def Let_def falsy_def split: if_splits)

lemma emitClosed_set:
  "set (emitClosed pid pname periods e) \<subseteq>
     insert \<lparr>userId = userId e, teamId = teamId e, purchaseDate = purchaseDate e,
             saleDate = saleDate e, playerId = pid, playerName = pname\<rparr> (set periods)"
  by (auto simp: emitClosed_def)

lemma emitClosed_users:
  "\<forall>p\<in>set periods. P (userId p) \<Longrightarrow> P (userId e) \<Longrightarrow>
   \<forall>p\<in>set (emitClosed pid pname periods e). P (userId p)"
proof -
  assume a: "\<forall>p\<in>set periods. P (userId p)" "P (userId e)"
  show ?thesis
  proof
    fix p assume "p \<in> set (emitClosed pid pname periods e)"
    with emitClosed_set[of pid pname periods e]
    have "p = \<lparr>userId = userId e, teamId = teamId e, purchaseDate = purchaseDate e,
             saleDate = saleDate e, playerId = pid, playerName = pname\<rparr> \<or> p \<in> set periods"
      by auto
    with a show "P (userId p)" by auto
  qed
qed

lemma emitHistory_users:
  "\<forall>p\<in>set periods. P (userId p) \<Longrightarrow> \<forall>x\<in>set hs. P (userId x) \<Longrightarrow>
   \<forall>p\<in>set (foldl (emitClosed pid pname) periods hs). P (userId p)"
proof (induction hs arbitrary: periods)
  case Nil
  then show ?case by simp
next
  case (Cons x hs)
  have "\<forall>p\<in>set (emitClosed pid pname periods x). P (userId p)"
    using emitClosed_users[of periods P x pid pname] Cons.prems by simp
  from Cons.IH[OF this] Cons.prems(2) show ?case by simp
qed

lemma emitAll_users:
  "\<forall>p\<in>set periods. P (userId p) \<Longrightarrow> \<forall>e\<in>set M. \<forall>x\<in>set (snd e). P (userId x) \<Longrightarrow>
   \<forall>p\<in>set (foldl (emitHistory roster txs) periods M). P (userId p)"
proof (induction M arbitrary: periods)
  case Nil
  then show ?case by simp
next
  case (Cons e M)
  have "\<forall>p\<in>set (emitHistory roster txs periods e). P (userId p)"
    unfolding emitHistory_def
    using emitHistory_users[of periods P "snd e"] Cons.prems by simp
  from Cons.IH[OF this] Cons.prems(2) show ?case by simp
qed

lemma periods_users:
  assumes "p \<in> set (getPlayerOwnershipPeriods (Some roster) txsResult)"
  shows "(\<exists>row\<in>set roster. pot_user_id row = Some (userId p))
         \<or> (\<exists>txs tx. txsResult = Some txs \<and> tx \<in> set txs \<and> tx_buyer_user_id tx = Some (userId p))"
proof -
  define txs where "txs = (case txsResult of None \<Rightarrow> [] | Some ts \<Rightarrow> ts)"
  define M where "M = foldl processTransaction [] txs"
  define P where "P = (\<lambda>u. (\<exists>row\<in>set roster. pot_user_id row = Some u) \<or> boughtBy txs u)"
  have hist: "\<forall>e\<in>set M. \<forall>x\<in>set (snd e). boughtBy txs (userId x)"
    unfolding M_def by (rule transactions_users) simp_all
  have ros: "\<forall>q\<in>set (List.map_filter (rosterPeriod M) roster). P (userId q)"
  proof
    fix q assume "q \<in> set (List.map_filter (rosterPeriod M) roster)"
    then obtain row where "row \<in> set roster" "rosterPeriod M row = Some q"
      by (auto simp: set_map_filter)
    with rosterPeriod_user[of M row q] show "P (userId q)" by (auto simp: P_def)
  qed
  have "\<forall>q\<in>set (foldl (emitHistory roster txs) (List.map_filter (rosterPeriod M) roster) M).
          P (userId q)"
    by (rule emitAll_users[OF ros]) (use hist in \<open>simp add: P_def\<close>)
  moreover have "getPlayerOwnershipPeriods (Some roster) txsResult =
      foldl (emitHistory roster txs) (List.map_filter (rosterPeriod M) roster) M"
    by (simp add: getPlayerOwnershipPeriods_def Let_def txs_def M_def)
  ultimately have "P (userId p)" using assms by simp
  then show ?thesis
    unfolding P_def boughtBy_def txs_def by (cases txsResult) auto
qed














lemma calculateRankings_teams3: "calculateRankings utcHost (Some teams3) (Some roster3) (Some []) logs7 =
   [\<lparr>rankUserId = ''u3'', rankTeamId = ''t3'', teamName = ''Mid'', totalPoints = 27,
       weeklyBreakdown = [(2, 20), (4, 7)]\<rparr>,
    \<lparr>rankUserId = ''u2'', rankTeamId = ''t2'', teamName = ''Alpha'', totalPoints = 0,
       weeklyBreakdown = []\<rparr>,
    \<lparr>rankUserId = ''u1'', rankTeamId = ''t1'', teamName = ''Zeta'', totalPoints = 0,
       weeklyBreakdown = []\<rparr>]"
  by code_simp



lemma periodWeeks_sum:
  "sum_list (map weekPoints (periodWeeks h logs p)) = periodPoints h logs p"
  by (simp add: cwp_sum periodPoints_def)

lemma distinct_filter_eq_length:
  "distinct xs \<Longrightarrow> x \<in> set xs \<Longrightarrow> length (filter (\<lambda>y. y = x) xs) = 1"
  by (induction xs) (auto simp: filter_empty_conv)

lemma length_filter_mset_eq:
  "mset xs = mset ys \<Longrightarrow> length (filter P xs) = length (filter P ys)"
  by (metis mset_filter size_mset)

lemma sum_list_mset_eq:
  "mset xs = mset ys \<Longrightarrow> sum_list (map f xs) = (sum_list (map f ys) :: int)"
  by (metis mset_map sum_mset_sum_list)

text \<open>The run of \<^const>\<open>calculateRankings\<close> when every period's user has a team.\<close>

lemma rankings_run:
  fixes h :: host and logs :: "int \<Rightarrow> PlayerGameLog list"
  assumes ne: "teams \<noteq> []"
    and known: "\<forall>p\<in>set (getPlayerOwnershipPeriods playersResult transactionsResult).
                  userId p \<in> ut_user_id ` set teams"
  defines "M0 \<equiv> foldl initRanking [] teams"
  defines "M \<equiv> foldl (processPeriod h teams logs) M0
                  (getPlayerOwnershipPeriods playersResult transactionsResult)"
  shows "mset (calculateRankings h (Some teams) playersResult transactionsResult logs)
           = mset (map snd M)"
    and "map (\<lambda>e. (fst e, shape (snd e))) M = map (\<lambda>e. (fst e, shape (snd e))) M0"
    and "map fst M = map fst M0"
proof -
  let ?ps = "getPlayerOwnershipPeriods playersResult transactionsResult"
  have k0: "fst ` set M0 = ut_user_id ` set teams"
    unfolding M0_def by (simp add: initRanking_keys)
  have kn: "\<forall>p\<in>set ?ps. userId p \<in> fst ` set M0" using known k0 by simp
  show sh: "map (\<lambda>e. (fst e, shape (snd e))) M = map (\<lambda>e. (fst e, shape (snd e))) M0"
    unfolding M_def by (rule periods_shape[OF kn])
  show "map fst M = map fst M0"
    unfolding M_def by (rule periods_keys[OF kn])
  have keyed0: "\<forall>e\<in>set M0. rankUserId (snd e) = fst e"
    unfolding M0_def by (rule initRanking_keyed) simp
  have "map (\<lambda>e. rankUserId (snd e)) M = map (\<lambda>x. fst (snd x)) (map (\<lambda>e. (fst e, shape (snd e))) M)"
    by (simp add: shape_def comp_def)
  also have "\<dots> = map (\<lambda>e. rankUserId (snd e)) M0"
    unfolding sh by (simp add: shape_def comp_def)
  also have "\<dots> = map fst M0" using keyed0 by simp
  finally have "map rankUserId (map snd M) = map fst M0" by (simp add: comp_def)
  then have "set (map rankUserId (map snd M)) = set (map fst M0)" by (rule arg_cong)
  also have "\<dots> = fst ` set M0" by (rule set_map)
  also note k0
  finally have users: "set (map rankUserId (map snd M)) = ut_user_id ` set teams" .
  have "mset (map rankUserId (sortBy (compareRankings h) (map snd M))) =
          mset (map rankUserId (map snd M))"
    by (simp only: mset_map mset_sortBy)
  then have "set (map rankUserId (sortBy (compareRankings h) (map snd M))) =
          set (map rankUserId (map snd M))"
    by (rule mset_eq_setD)
  with users have "set (map rankUserId (sortBy (compareRankings h) (map snd M))) =
          ut_user_id ` set teams" by simp
  then have miss: "missingTeams (sortBy (compareRankings h) (map snd M)) teams = []"
    unfolding missingTeams_def by (simp add: filter_empty_conv)
  have "calculateRankings h (Some teams) playersResult transactionsResult logs =
          sortBy (compareRankings h) (sortBy (compareRankings h) (map snd M))"
    using ne miss by (simp add: calculateRankings_def Let_def M_def M0_def)
  then show "mset (calculateRankings h (Some teams) playersResult transactionsResult logs)
           = mset (map snd M)"
    by (simp add: mset_sortBy)
qed

lemma periods_known:
  assumes "\<forall>roster. playersResult = Some roster \<longrightarrow>
             (\<forall>row\<in>set roster. \<forall>u. pot_user_id row = Some u \<longrightarrow> u \<in> ut_user_id ` set teams)"
    and "\<forall>txs. transactionsResult = Some txs \<longrightarrow>
             (\<forall>tx\<in>set txs. \<forall>u. tx_buyer_user_id tx = Some u \<longrightarrow> u \<in> ut_user_id ` set teams)"
  shows "\<forall>p\<in>set (getPlayerOwnershipPeriods playersResult transactionsResult).
           userId p \<in> ut_user_id ` set teams"
proof (cases playersResult)
  case None
  then show ?thesis by (simp add: getPlayerOwnershipPeriods_def)
next
  case (Some roster)
  show ?thesis
  proof
    fix p assume "p \<in> set (getPlayerOwnershipPeriods playersResult transactionsResult)"
    from periods_users[OF this[unfolded Some]] assms Some
    show "userId p \<in> ut_user_id ` set teams" by blast
  qed
qed


text \<open>
  C4, amended. When no two teams of the list share a user (as \<^verbatim>\<open>UNIQUE(user_id)\<close> on
  \<^verbatim>\<open>user_teams\<close> demands) or an id, and every user joined to a roster row or to the buying
  team of a transaction is the user of a team of the list, the result has as many entries
  as there are teams and, for each team, exactly one entry with that team's id; it carries
  the team's user and name, and it has zero points and an empty weekly breakdown when no
  ownership period belongs to that user.
\<close>

theorem calculateRankings_one_ranking_per_team:
  assumes du: "distinct (map ut_user_id teams)"
    and di: "distinct (map ut_id teams)"
    and r1: "\<forall>roster. playersResult = Some roster \<longrightarrow>
             (\<forall>row\<in>set roster. \<forall>u. pot_user_id row = Some u \<longrightarrow> u \<in> ut_user_id ` set teams)"
    and r2: "\<forall>txs. transactionsResult = Some txs \<longrightarrow>
             (\<forall>tx\<in>set txs. \<forall>u. tx_buyer_user_id tx = Some u \<longrightarrow> u \<in> ut_user_id ` set teams)"
  shows "length (calculateRankings h (Some teams) playersResult transactionsResult logs)
           = length teams
       \<and> (\<forall>t\<in>set teams.
            \<exists>r. filter (\<lambda>r. rankTeamId r = ut_id t)
                   (calculateRankings h (Some teams) playersResult transactionsResult logs) = [r]
               \<and> rankUserId r = ut_user_id t \<and> teamName r = ut_team_name t
               \<and> ((\<forall>p\<in>set (getPlayerOwnershipPeriods playersResult transactionsResult).
                      userId p \<noteq> ut_user_id t)
                    \<longrightarrow> totalPoints r = 0 \<and> weeklyBreakdown r = []))"
proof (cases "teams = []")
  case True
  then show ?thesis by (simp add: calculateRankings_def)
next
  case ne: False
  let ?ps = "getPlayerOwnershipPeriods playersResult transactionsResult"
  let ?R = "calculateRankings h (Some teams) playersResult transactionsResult logs"
  define M0 where "M0 = foldl initRanking [] teams"
  define M where "M = foldl (processPeriod h teams logs) M0 ?ps"
  have known: "\<forall>p\<in>set ?ps. userId p \<in> ut_user_id ` set teams"
    by (rule periods_known[OF r1 r2])
  note run = rankings_run[OF ne known, of h logs, folded M0_def, folded M_def]
  have M0: "M0 = map (\<lambda>t. (ut_user_id t, zeroRanking t)) teams"
    unfolding M0_def using initRanking_distinct_users[OF du, of "[]"] by simp
  have dM: "distinct (map fst M)"
    unfolding run(3) M0 using du by (simp add: comp_def)
  have shapes: "map (\<lambda>e. shape (snd e)) M =
                  map (\<lambda>t. (ut_user_id t, ut_id t, ut_team_name t)) teams"
  proof -
    have "map (\<lambda>e. shape (snd e)) M = map snd (map (\<lambda>e. (fst e, shape (snd e))) M)"
      by (simp add: comp_def)
    also have "\<dots> = map snd (map (\<lambda>e. (fst e, shape (snd e))) M0)"
      unfolding run(2) ..
    also have "\<dots> = map (\<lambda>t. (ut_user_id t, ut_id t, ut_team_name t)) teams"
      unfolding M0 by (simp add: comp_def shape_def)
    finally show ?thesis .
  qed
  have len: "length ?R = length teams"
  proof -
    have "length ?R = length (map snd M)" using run(1) by (metis size_mset)
    also have "\<dots> = length (map (\<lambda>e. shape (snd e)) M)" by simp
    also have "\<dots> = length teams" unfolding shapes by simp
    finally show ?thesis .
  qed
  have each: "\<exists>r. filter (\<lambda>r. rankTeamId r = ut_id t) ?R = [r]
               \<and> rankUserId r = ut_user_id t \<and> teamName r = ut_team_name t
               \<and> ((\<forall>p\<in>set ?ps. userId p \<noteq> ut_user_id t)
                    \<longrightarrow> totalPoints r = 0 \<and> weeklyBreakdown r = [])"
    if t: "t \<in> set teams" for t
  proof -
    let ?P = "\<lambda>r. rankTeamId r = ut_id t"
    have "length (filter ?P ?R) = length (filter ?P (map snd M))"
      by (rule length_filter_mset_eq[OF run(1)])
    also have "\<dots> = length (filter (\<lambda>y. y = ut_id t) (map (\<lambda>e. rankTeamId (snd e)) M))"
      by (simp add: filter_map comp_def)
    also have "map (\<lambda>e. rankTeamId (snd e)) M = map (\<lambda>x. fst (snd x)) (map (\<lambda>e. shape (snd e)) M)"
      by (simp add: comp_def shape_def)
    also have "\<dots> = map ut_id teams" unfolding shapes by (simp add: comp_def)
    also have "length (filter (\<lambda>y. y = ut_id t) (map ut_id teams)) = 1"
      by (rule distinct_filter_eq_length[OF di]) (use t in simp)
    finally have "length (filter ?P ?R) = 1" .
    then obtain r where r: "filter ?P ?R = [r]"
      by (cases "filter ?P ?R") auto
    then have "r \<in> set (filter ?P ?R)" by simp
    then have rin: "r \<in> set ?R" and rt: "rankTeamId r = ut_id t" by auto
    from rin run(1) have "r \<in> set (map snd M)" by (metis set_mset_mset)
    then obtain i where i: "i < length M" "snd (M ! i) = r"
      by (auto simp: in_set_conv_nth)
    have li: "i < length teams" using i(1) shapes by (metis length_map)
    have "shape r = map (\<lambda>e. shape (snd e)) M ! i" using i by simp
    also have "\<dots> = (ut_user_id (teams ! i), ut_id (teams ! i), ut_team_name (teams ! i))"
      unfolding shapes using li by simp
    finally have sr: "shape r = (ut_user_id (teams ! i), ut_id (teams ! i), ut_team_name (teams ! i))" .
    then have "ut_id (teams ! i) = ut_id t" using rt by (simp add: shape_def)
    moreover have "teams ! i \<in> set teams" using li by simp
    ultimately have ti: "teams ! i = t"
      using di t by (meson distinct_map inj_onD)
    have f: "rankUserId r = ut_user_id t" "teamName r = ut_team_name t"
      using sr ti by (simp_all add: shape_def)
    have key: "fst (M ! i) = ut_user_id t"
    proof -
      have "fst (M ! i) = map fst M ! i" using i(1) by simp
      also have "\<dots> = ut_user_id (teams ! i)" unfolding run(3) M0 using li by (simp add: comp_def)
      finally show ?thesis using ti by simp
    qed
    have untouched: "totalPoints r = 0 \<and> weeklyBreakdown r = []"
      if no: "\<forall>p\<in>set ?ps. userId p \<noteq> ut_user_id t"
    proof -
      from no have "ut_user_id t \<notin> userId ` set ?ps" by auto
      from periods_other[OF this, of h teams logs M0]
      have "map_of M (ut_user_id t) = map_of M0 (ut_user_id t)" by (simp add: M_def)
      also have "\<dots> = Some (zeroRanking t)"
      proof (rule map_of_is_SomeI)
        show "distinct (map fst M0)" unfolding M0 using du by (simp add: comp_def)
        show "(ut_user_id t, zeroRanking t) \<in> set M0" unfolding M0 using t by auto
      qed
      finally have a: "map_of M (ut_user_id t) = Some (zeroRanking t)" .
      have "(fst (M ! i), snd (M ! i)) \<in> set M" using i(1) by simp
      then have "map_of M (fst (M ! i)) = Some (snd (M ! i))"
        using dM by (rule_tac map_of_is_SomeI)
      with a key i(2) have "r = zeroRanking t" by simp
      then show ?thesis by simp
    qed
    from r f untouched show ?thesis by blast
  qed
  from len each show ?thesis by blast
qed

theorem calculateRankings_one_ranking_per_team_witness:
  "distinct (map ut_user_id teams3) \<and> distinct (map ut_id teams3)
   \<and> length (calculateRankings utcHost (Some teams3) (Some roster3) (Some []) logs7) = 3
   \<and> filter (\<lambda>r. rankTeamId r = ''t1'')
        (calculateRankings utcHost (Some teams3) (Some roster3) (Some []) logs7) =
        [\<lparr>rankUserId = ''u1'', rankTeamId = ''t1'', teamName = ''Zeta'', totalPoints = 0,
          weeklyBreakdown = []\<rparr>]"
proof -
  have du: "distinct (map ut_user_id teams3)" and di: "distinct (map ut_id teams3)"
    by (simp_all add: teams3_def)
  have r1: "\<forall>roster. Some roster3 = Some roster \<longrightarrow>
             (\<forall>row\<in>set roster. \<forall>u. pot_user_id row = Some u \<longrightarrow> u \<in> ut_user_id ` set teams3)"
    by (simp add: roster3_def teams3_def)
  have r2: "\<forall>txs. Some [] = Some txs \<longrightarrow>
             (\<forall>tx\<in>set txs. \<forall>u. tx_buyer_user_id tx = Some u \<longrightarrow> u \<in> ut_user_id ` set teams3)"
    by auto
  from calculateRankings_one_ranking_per_team[OF du di r1 r2, of utcHost logs7] du di
  show ?thesis unfolding calculateRankings_teams3 by (simp add: teams3_def)
qed

text \<open>
  C4, as claimed, for a user with more than one team: the rankings are keyed by user, so
  the second team of user u1 replaces the first, and no entry has the id of team t1.
\<close>

theorem second_team_of_a_user_replaces_the_first:
  "calculateRankings utcHost (Some teamsTwoForOneUser) (Some []) (Some []) (\<lambda>q. []) =
     [\<lparr>rankUserId = ''u1'', rankTeamId = ''t2'', teamName = ''Beta'', totalPoints = 0,
       weeklyBreakdown = []\<rparr>]
   \<and> filter (\<lambda>r. rankTeamId r = ''t1'')
       (calculateRankings utcHost (Some teamsTwoForOneUser) (Some []) (Some []) (\<lambda>q. [])) = []"
  by code_simp


lemma sum_filter_if:
  "sum_list (map f (filter P xs)) = (\<Sum>x\<leftarrow>xs. if P x then f x else (0::int))"
  by (induction xs) auto

lemma sum_periods_games:
  fixes f :: "'a \<Rightarrow> int"
  shows "(\<Sum>p\<leftarrow>ps. sum_list (map f (filter (A p) gs))) =
     (\<Sum>g\<leftarrow>gs. f g * int (length (filter (\<lambda>p. A p g) ps)))"
proof (induction ps)
  case Nil
  then show ?case by simp
next
  case (Cons p ps)
  have "(\<Sum>q\<leftarrow>p # ps. sum_list (map f (filter (A q) gs))) =
          (\<Sum>g\<leftarrow>gs. if A p g then f g else 0)
            + (\<Sum>g\<leftarrow>gs. f g * int (length (filter (\<lambda>p. A p g) ps)))"
    unfolding list.map sum_list.Cons Cons by (simp only: sum_filter_if)
  also have "\<dots> = (\<Sum>g\<leftarrow>gs. (if A p g then f g else 0)
                        + f g * int (length (filter (\<lambda>p. A p g) ps)))"
    by (simp add: sum_list_addf)
  also have "\<dots> = (\<Sum>g\<leftarrow>gs. f g * int (length (filter (\<lambda>q. A q g) (p # ps))))"
    by (rule arg_cong[where f = sum_list], rule map_cong) (auto simp: algebra_simps)
  finally show ?case .
qed

lemma sum_at_most_once:
  fixes f :: "'a \<Rightarrow> int"
  assumes "\<forall>g\<in>set gs. length (filter (\<lambda>p. A p g) ps) \<le> 1"
  shows "(\<Sum>p\<leftarrow>ps. sum_list (map f (filter (A p) gs))) =
           sum_list (map f (filter (\<lambda>g. list_ex (\<lambda>p. A p g) ps) gs))"
proof -
  have "(\<Sum>g\<leftarrow>gs. f g * int (length (filter (\<lambda>p. A p g) ps))) =
          (\<Sum>g\<leftarrow>gs. if list_ex (\<lambda>p. A p g) ps then f g else 0)"
  proof (rule arg_cong[where f = sum_list], rule map_cong)
    fix g assume g: "g \<in> set gs"
    show "f g * int (length (filter (\<lambda>p. A p g) ps)) =
            (if list_ex (\<lambda>p. A p g) ps then f g else 0)"
    proof (cases "list_ex (\<lambda>p. A p g) ps")
      case True
      then have "filter (\<lambda>p. A p g) ps \<noteq> []"
        by (simp add: list_ex_iff filter_empty_conv)
      then have "length (filter (\<lambda>p. A p g) ps) \<ge> 1"
        by (cases "filter (\<lambda>p. A p g) ps") auto
      with assms g have "length (filter (\<lambda>p. A p g) ps) = 1" by force
      with True show ?thesis by simp
    next
      case False
      then have "filter (\<lambda>p. A p g) ps = []"
        by (simp add: list_ex_iff filter_empty_conv)
      with False show ?thesis by simp
    qed
  qed simp
  then show ?thesis unfolding sum_periods_games by (simp only: sum_filter_if)
qed

lemma sum_list_all_zero: "\<forall>x\<in>set xs. f x = (0::int) \<Longrightarrow> sum_list (map f xs) = 0"
  by (induction xs) auto

lemma periodPoints_only:
  "periodPoints h (\<lambda>i. if i = q then logs i else []) p =
     (if playerId p = q then periodPoints h logs p else 0)"
  by (simp add: periodPoints_def)

lemma rankings_total:
  assumes ne: "teams \<noteq> []"
    and known: "\<forall>p\<in>set (getPlayerOwnershipPeriods playersResult transactionsResult).
                  userId p \<in> ut_user_id ` set teams"
  shows "sum_list (map totalPoints
           (calculateRankings h (Some teams) playersResult transactionsResult logs)) =
         sum_list (map (periodPoints h logs)
           (getPlayerOwnershipPeriods playersResult transactionsResult))"
proof -
  let ?ps = "getPlayerOwnershipPeriods playersResult transactionsResult"
  define M0 where "M0 = foldl initRanking [] teams"
  define M where "M = foldl (processPeriod h teams logs) M0 ?ps"
  note run = rankings_run[OF ne known, of h logs, folded M0_def, folded M_def]
  have d0: "distinct (map fst M0)" unfolding M0_def by (rule initRanking_distinct) simp
  have k0: "fst ` set M0 = ut_user_id ` set teams"
    unfolding M0_def by (simp add: initRanking_keys)
  have kn: "\<forall>p\<in>set ?ps. userId p \<in> fst ` set M0" using known k0 by simp
  have z: "\<forall>e\<in>set M0. totalPoints (snd e) = 0"
    unfolding M0_def by (rule initRanking_values) simp_all
  then have z0: "sum_list (map (\<lambda>e. totalPoints (snd e)) M0) = 0"
    by (rule sum_list_all_zero)
  have "sum_list (map totalPoints
           (calculateRankings h (Some teams) playersResult transactionsResult logs)) =
        sum_list (map totalPoints (map snd M))"
    by (rule sum_list_mset_eq[OF run(1)])
  also have "\<dots> = sum_list (map (\<lambda>e. totalPoints (snd e)) M)" by (simp add: comp_def)
  also have "\<dots> = sum_list (map (\<lambda>e. totalPoints (snd e)) M0)
                     + sum_list (map (\<lambda>p. sum_list (map weekPoints (periodWeeks h logs p))) ?ps)"
    unfolding M_def by (rule periods_sum[OF d0 kn])
  also have "\<dots> = sum_list (map (periodPoints h logs) ?ps)"
    by (simp add: z0 periodWeeks_sum)
  finally show ?thesis .
qed

lemma rankings_balanced:
  assumes ne: "teams \<noteq> []"
    and known: "\<forall>p\<in>set (getPlayerOwnershipPeriods playersResult transactionsResult).
                  userId p \<in> ut_user_id ` set teams"
  shows "\<forall>r\<in>set (calculateRankings h (Some teams) playersResult transactionsResult logs).
           totalPoints r = sum_list (map snd (weeklyBreakdown r))"
proof
  fix r
  assume r: "r \<in> set (calculateRankings h (Some teams) playersResult transactionsResult logs)"
  let ?ps = "getPlayerOwnershipPeriods playersResult transactionsResult"
  define M0 where "M0 = foldl initRanking [] teams"
  define M where "M = foldl (processPeriod h teams logs) M0 ?ps"
  note run = rankings_run[OF ne known, of h logs, folded M0_def, folded M_def]
  have "\<forall>e\<in>set M0. balanced (snd e)"
    unfolding M0_def by (rule initRanking_values) (simp_all add: balanced_def)
  then have b: "\<forall>e\<in>set M. balanced (snd e)"
    unfolding M_def by (rule periods_balanced)
  from r run(1) have "r \<in> set (map snd M)" by (metis set_mset_mset)
  with b have "balanced r" by auto
  then show "totalPoints r = sum_list (map snd (weeklyBreakdown r))"
    by (simp add: balanced_def)
qed

text \<open>
  C2, amended. When the team list is not empty and every user joined to a roster row or to
  the buying team of a transaction is the user of a listed team, the points of all
  rankings of one run add up to the sum, over the ownership periods, of the points of the
  player's games inside that period (normalized game date on or after the normalized
  purchase date and before the normalized sale date, if any); every ranking's total is the
  sum of its weekly breakdown; the points attributed to a player are the sum over that
  player's periods, so a game inside several of them is counted once for each; and when
  no game of the player lies inside two of the player's periods, the attributed points
  are the points of the games inside the union of the periods.
\<close>

theorem calculateRankings_conserves_period_points:
  assumes ne: "teams \<noteq> []"
    and r1: "\<forall>roster. playersResult = Some roster \<longrightarrow>
             (\<forall>row\<in>set roster. \<forall>u. pot_user_id row = Some u \<longrightarrow> u \<in> ut_user_id ` set teams)"
    and r2: "\<forall>txs. transactionsResult = Some txs \<longrightarrow>
             (\<forall>tx\<in>set txs. \<forall>u. tx_buyer_user_id tx = Some u \<longrightarrow> u \<in> ut_user_id ` set teams)"
  shows "sum_list (map totalPoints
           (calculateRankings h (Some teams) playersResult transactionsResult logs)) =
         sum_list (map (periodPoints h logs)
           (getPlayerOwnershipPeriods playersResult transactionsResult))
       \<and> (\<forall>r\<in>set (calculateRankings h (Some teams) playersResult transactionsResult logs).
            totalPoints r = sum_list (map snd (weeklyBreakdown r)))
       \<and> attributedPoints h (Some teams) playersResult transactionsResult logs q =
           sum_list (map (periodPoints h logs)
             (filter (\<lambda>p. playerId p = q)
                (getPlayerOwnershipPeriods playersResult transactionsResult)))
       \<and> ((\<forall>g\<in>set (logs q).
              length (filter (\<lambda>p. playerId p = q \<and> isInRange h (purchaseDate p) (saleDate p) g)
                        (getPlayerOwnershipPeriods playersResult transactionsResult)) \<le> 1)
           \<longrightarrow> attributedPoints h (Some teams) playersResult transactionsResult logs q =
                 unionPoints h (getPlayerOwnershipPeriods playersResult transactionsResult)
                   (logs q) q)"
proof -
  let ?ps = "getPlayerOwnershipPeriods playersResult transactionsResult"
  have known: "\<forall>p\<in>set ?ps. userId p \<in> ut_user_id ` set teams"
    by (rule periods_known[OF r1 r2])
  have a: "sum_list (map totalPoints
           (calculateRankings h (Some teams) playersResult transactionsResult logs)) =
         sum_list (map (periodPoints h logs) ?ps)"
    by (rule rankings_total[OF ne known])
  have b: "\<forall>r\<in>set (calculateRankings h (Some teams) playersResult transactionsResult logs).
            totalPoints r = sum_list (map snd (weeklyBreakdown r))"
    by (rule rankings_balanced[OF ne known])
  have c: "attributedPoints h (Some teams) playersResult transactionsResult logs q =
           sum_list (map (periodPoints h logs) (filter (\<lambda>p. playerId p = q) ?ps))"
  proof -
    have e: "periodPoints h (\<lambda>i. if i = q then logs i else []) =
               (\<lambda>p. if playerId p = q then periodPoints h logs p else 0)"
      by (rule ext) (rule periodPoints_only)
    show ?thesis
      unfolding attributedPoints_def rankings_total[OF ne known] e
      by (simp only: sum_filter_if)
  qed
  have d: "attributedPoints h (Some teams) playersResult transactionsResult logs q =
             unionPoints h ?ps (logs q) q"
    if once: "\<forall>g\<in>set (logs q).
              length (filter (\<lambda>p. playerId p = q \<and> isInRange h (purchaseDate p) (saleDate p) g)
                        ?ps) \<le> 1"
  proof -
    let ?A = "\<lambda>p g. playerId p = q \<and> isInRange h (purchaseDate p) (saleDate p) g"
    have "sum_list (map (periodPoints h logs) (filter (\<lambda>p. playerId p = q) ?ps)) =
            (\<Sum>p\<leftarrow>?ps. if playerId p = q then periodPoints h logs p else 0)"
      by (rule sum_filter_if)
    also have "\<dots> = (\<Sum>p\<leftarrow>?ps. sum_list (map points (filter (?A p) (logs q))))"
      by (rule arg_cong[where f = sum_list], rule map_cong) (auto simp: periodPoints_def)
    also have "\<dots> = sum_list (map points (filter (\<lambda>g. list_ex (\<lambda>p. ?A p g) ?ps) (logs q)))"
      by (rule sum_at_most_once[OF once])
    finally show ?thesis unfolding c unionPoints_def .
  qed
  from a b c d show ?thesis by blast
qed

text \<open>
  C2, as claimed: no game point is counted twice. Player 7 is on the roster of two teams
  at once (both added the player as an initial pick); the 27 points of the games after
  both purchases are credited to both teams, 54 in all, while the games inside the union
  of the two periods are worth 27.
\<close>

theorem game_in_two_periods_counts_twice:
  "attributedPoints utcHost (Some teams3) (Some rosterTwoHolders) (Some []) logs7 7 = 54
   \<and> unionPoints utcHost (getPlayerOwnershipPeriods (Some rosterTwoHolders) (Some []))
        (logs7 7) 7 = 27"
  by code_simp

lemma attributed_teams3:
  "attributedPoints utcHost (Some teams3) (Some roster3) (Some []) logs7 7 = 27"
  by code_simp

theorem calculateRankings_conserves_period_points_witness:
  "teams3 \<noteq> []
   \<and> sum_list (map (periodPoints utcHost logs7)
        (getPlayerOwnershipPeriods (Some roster3) (Some []))) = 27
   \<and> unionPoints utcHost (getPlayerOwnershipPeriods (Some roster3) (Some [])) (logs7 7) 7 = 27"
proof -
  have ne: "teams3 \<noteq> []" by (simp add: teams3_def)
  have r1: "\<forall>roster. Some roster3 = Some roster \<longrightarrow>
             (\<forall>row\<in>set roster. \<forall>u. pot_user_id row = Some u \<longrightarrow> u \<in> ut_user_id ` set teams3)"
    by (simp add: roster3_def teams3_def)
  have r2: "\<forall>txs. Some [] = Some txs \<longrightarrow>
             (\<forall>tx\<in>set txs. \<forall>u. tx_buyer_user_id tx = Some u \<longrightarrow> u \<in> ut_user_id ` set teams3)"
    by auto
  have ps: "getPlayerOwnershipPeriods (Some roster3) (Some []) =
              [\<lparr>userId = ''u3'', teamId = ''t3'', purchaseDate = purchaseA, saleDate = None,
                playerId = 7, playerName = ''P7''\<rparr>]"
    by code_simp
  have once: "\<forall>g\<in>set (logs7 7).
      length (filter (\<lambda>p. playerId p = 7 \<and> isInRange utcHost (purchaseDate p) (saleDate p) g)
                (getPlayerOwnershipPeriods (Some roster3) (Some []))) \<le> 1"
    unfolding ps by simp
  from calculateRankings_conserves_period_points[OF ne r1 r2, of utcHost logs7 7] once
  show ?thesis
    unfolding calculateRankings_teams3 attributed_teams3 using ne by simp
qed

subsection \<open>Ranking Cache\<close>













end
